theory Spec2Isabelle
  imports Complex_Main "HOL-Library.Sublist" "HOL-Library.AList" "HOL-Library.Multiset"
begin

section \<open>Values, records and the host's built-ins\<close>

text \<open>
  A stock record is a JavaScript object parsed from JSON: an ordered list of
  (field name, value) pairs, its own properties. The values the data loader
  produces are numbers, strings, booleans and \<open>null\<close>. Numbers are finite
  doubles, taken here as rationals; only their order and their string form are
  used.
\<close>

datatype jsval = JNum rat | JStr string | JBool bool | JNull

type_synonym StockData = "(string \<times> jsval) list"

type_synonym Filters = "(string \<times> string) list"

text \<open>
  The built-ins of the host are parameters of the model:
  \<open>Number.prototype.toString\<close>, \<open>String.prototype.localeCompare\<close>,
  \<open>String.prototype.toLowerCase\<close>, \<open>String.prototype.trim\<close>, the string form
  of the property that a plain object inherits from \<open>Object.prototype\<close> under
  a name (\<open>None\<close> where it inherits nothing), and the order in which
  \<open>Array.prototype.sort\<close> leaves an array when the comparator is not
  consistent.
\<close>

record host =
  numToString :: "rat \<Rightarrow> string"
  localeCompare :: "string \<Rightarrow> string \<Rightarrow> int"
  toLowerCase :: "string \<Rightarrow> string"
  trim :: "string \<Rightarrow> string"
  inheritedText :: "string \<Rightarrow> string option"
  sortOrder :: "(StockData \<Rightarrow> StockData \<Rightarrow> rat) \<Rightarrow> StockData list \<Rightarrow> StockData list"

definition comma :: char where
  "comma = CHR '',''"

definition dquote :: char where
  "dquote = CHR 0x22"

definition newline :: char where
  "newline = CHR 0x0A"


text \<open>
  What reading \<open>item[key]\<close> gives: \<open>undefined\<close>, a value of the record, or an
  object or function inherited from \<open>Object.prototype\<close>, kept by its string
  form. An own property hides an inherited one.
\<close>

datatype jsprop = Undefined | Value jsval | Inherited string

definition getProp :: "host \<Rightarrow> StockData \<Rightarrow> string \<Rightarrow> jsprop" where
  "getProp h item k =
     (case map_of item k of
        Some v \<Rightarrow> Value v
      | None \<Rightarrow> (case inheritedText h k of Some s \<Rightarrow> Inherited s | None \<Rightarrow> Undefined))"

text \<open>
  The string form of a value, \<open>value.toString()\<close> or the conversion done by
  \<open>join\<close>. The code never takes it of \<open>null\<close>: every call is guarded, see
  \<open>optToString\<close> and \<open>joinElem\<close>.
\<close>

fun toString :: "host \<Rightarrow> jsval \<Rightarrow> string" where
  "toString h (JNum n) = numToString h n"
| "toString h (JStr s) = s"
| "toString h (JBool b) = (if b then ''true'' else ''false'')"
| "toString h JNull = ''null''"

text \<open>
  \<open>value?.toString()\<close>: the optional chain stops at \<open>null\<close> and \<open>undefined\<close>
  and the whole chain is then \<open>undefined\<close> (\<open>None\<close>).
\<close>

fun optToString :: "host \<Rightarrow> jsprop \<Rightarrow> string option" where
  "optToString h Undefined = None"
| "optToString h (Value JNull) = None"
| "optToString h (Value v) = Some (toString h v)"
| "optToString h (Inherited s) = Some s"

text \<open>\<open>s.includes(t)\<close>: \<open>t\<close> occurs in \<open>s\<close> as a contiguous substring.\<close>

definition includesStr :: "string \<Rightarrow> string \<Rightarrow> bool" where
  "includesStr s t = sublist t s"

text \<open>\<open>Array.prototype.join\<close> on strings.\<close>

fun join :: "string \<Rightarrow> string list \<Rightarrow> string" where
  "join sep [] = []"
| "join sep [x] = x"
| "join sep (x # y # ys) = x @ sep @ join sep (y # ys)"

text \<open>
  \<open>Array.prototype.slice(start, end)\<close>, with the standard's treatment of
  negative and too large indices.
\<close>

definition slice :: "'a list \<Rightarrow> int \<Rightarrow> int \<Rightarrow> 'a list" where
  "slice xs start fin =
     (let len = int (length xs);
          k = (if start < 0 then max (len + start) 0 else min start len);
          final = (if fin < 0 then max (len + fin) 0 else min fin len)
      in take (nat (final - k)) (drop (nat k) xs))"

text \<open>
  \<open>Array.prototype.sort(compareFn)\<close>. Only the sign of the comparator's result
  is used. The standard calls a comparator consistent on the elements when it
  orders them totally up to ties; for such a comparator it fixes the result:
  the elements in order, ties in their former order, which the stable insertion
  sort computes. For any other comparator the standard leaves the order to the
  host, and the result is the rearrangement the host chooses; a parameter that
  does not rearrange the array is no host, and the insertion sort stands in
  for it.
\<close>

definition consistentOn :: "('a \<Rightarrow> 'a \<Rightarrow> rat) \<Rightarrow> 'a list \<Rightarrow> bool" where
  "consistentOn c xs \<longleftrightarrow>
     (\<forall>x\<in>set xs. \<forall>y\<in>set xs. sgn (c y x) = - sgn (c x y))
     \<and> (\<forall>x\<in>set xs. \<forall>y\<in>set xs. \<forall>z\<in>set xs. c x y \<le> 0 \<and> c y z \<le> 0 \<longrightarrow> c x z \<le> 0)"

text \<open>A list is ordered by a comparator: no element is after one it should precede.\<close>

definition orderedBy :: "('a \<Rightarrow> 'a \<Rightarrow> rat) \<Rightarrow> 'a list \<Rightarrow> bool" where
  "orderedBy c xs = sorted_wrt (\<lambda>a b. c a b \<le> 0) xs"

fun insertBy :: "('a \<Rightarrow> 'a \<Rightarrow> rat) \<Rightarrow> 'a \<Rightarrow> 'a list \<Rightarrow> 'a list" where
  "insertBy c x [] = [x]"
| "insertBy c x (y # ys) = (if c x y \<le> 0 then x # y # ys else y # insertBy c x ys)"

definition stableSort :: "('a \<Rightarrow> 'a \<Rightarrow> rat) \<Rightarrow> 'a list \<Rightarrow> 'a list" where
  "stableSort c xs = foldr (insertBy c) xs []"

definition arraySort ::
  "host \<Rightarrow> (StockData \<Rightarrow> StockData \<Rightarrow> rat) \<Rightarrow> StockData list \<Rightarrow> StockData list" where
  "arraySort h c xs =
     (if consistentOn c xs then stableSort c xs
      else if mset (sortOrder h c xs) = mset xs then sortOrder h c xs
      else stableSort c xs)"

section \<open>The QueryResult component\<close>

datatype direction = Asc | Desc

record sortConfig =
  key :: string
  direction :: direction

record qr_state =
  data :: "StockData list"
  filters :: Filters
  loading :: bool
  sortConfig :: "sortConfig option"
  currentPage :: int

definition itemsPerPage :: nat where
  "itemsPerPage = 20"

subsection \<open>applyFilters\<close>

text \<open>
  The callback of \<open>every\<close>: an absent or empty constraint passes; otherwise the
  lower-cased string form of what \<open>item[key]\<close> reads must include the
  lower-cased constraint, and an \<open>undefined\<close> chain result is falsy.
\<close>

definition filterKeyOk :: "host \<Rightarrow> Filters \<Rightarrow> StockData \<Rightarrow> string \<Rightarrow> bool" where
  "filterKeyOk h fs item k =
     (case map_of fs k of
        None \<Rightarrow> True
      | Some fv \<Rightarrow>
          if fv = [] then True
          else (case optToString h (getProp h item k) of
                  None \<Rightarrow> False
                | Some s \<Rightarrow> includesStr (toLowerCase h s) (toLowerCase h fv)))"

definition applyFilters :: "host \<Rightarrow> qr_state \<Rightarrow> StockData list" where
  "applyFilters h st =
     filter (\<lambda>item. list_all (filterKeyOk h (filters st) item) (map fst (filters st))) (data st)"

subsection \<open>sortData\<close>

text \<open>\<open>value?.toString() || ''\<close>.\<close>

definition strOrEmpty :: "host \<Rightarrow> jsprop \<Rightarrow> string" where
  "strOrEmpty h v = (case optToString h v of None \<Rightarrow> [] | Some s \<Rightarrow> s)"

definition compareFn :: "host \<Rightarrow> sortConfig \<Rightarrow> StockData \<Rightarrow> StockData \<Rightarrow> rat" where
  "compareFn h cfg a b =
     (let aValue = getProp h a (key cfg); bValue = getProp h b (key cfg)
      in case (aValue, bValue) of
           (Value (JNum x), Value (JNum y)) \<Rightarrow>
             (if direction cfg = Asc then x - y else y - x)
         | _ \<Rightarrow>
             (let aStr = strOrEmpty h aValue; bStr = strOrEmpty h bValue
              in if direction cfg = Asc then of_int (localeCompare h aStr bStr)
                 else of_int (localeCompare h bStr aStr)))"

definition sortData :: "host \<Rightarrow> qr_state \<Rightarrow> StockData list \<Rightarrow> StockData list" where
  "sortData h st xs =
     (case sortConfig st of
        None \<Rightarrow> xs
      | Some cfg \<Rightarrow> arraySort h (compareFn h cfg) xs)"

definition filteredAndSortedData :: "host \<Rightarrow> qr_state \<Rightarrow> StockData list" where
  "filteredAndSortedData h st = sortData h st (applyFilters h st)"

subsection \<open>State transitions\<close>

text \<open>The state the component starts in, from the defaults of its \<open>useState\<close> calls.\<close>

definition initialState :: qr_state where
  "initialState =
     \<lparr>data = [], filters = [], loading = True, sortConfig = None, currentPage = 1\<rparr>"

definition handleSort :: "string \<Rightarrow> qr_state \<Rightarrow> qr_state" where
  "handleSort k st =
     (let d = (case sortConfig st of
                 None \<Rightarrow> Asc
               | Some c \<Rightarrow> if key c = k \<and> direction c = Asc then Desc else Asc)
      in st\<lparr>sortConfig := Some \<lparr>key = k, direction = d\<rparr>\<rparr>)"

definition handlePageChange :: "int \<Rightarrow> qr_state \<Rightarrow> qr_state" where
  "handlePageChange page st = st\<lparr>currentPage := page\<rparr>"

text \<open>
  The effect on \<open>searchParams\<close>: each parameter is assigned into a fresh object
  (a later value for the same name replaces the earlier one in place; an
  assignment of a string to \<open>__proto__\<close> creates no property), the object
  becomes the filters, and \<open>fetchData\<close> starts by raising \<open>loading\<close>. The fetch
  ends in one of two later transitions.
\<close>

definition searchParamsEffect :: "(string \<times> string) list \<Rightarrow> qr_state \<Rightarrow> qr_state" where
  "searchParamsEffect params st =
     (let urlFilters =
            fold (\<lambda>(k, v) obj. if k = ''__proto__'' then obj else AList.update k v obj) params []
      in st\<lparr>filters := urlFilters, loading := True\<rparr>)"

definition fetchDataDone :: "StockData list \<Rightarrow> qr_state \<Rightarrow> qr_state" where
  "fetchDataDone result st = st\<lparr>data := result, loading := False\<rparr>"

definition fetchDataFailed :: "qr_state \<Rightarrow> qr_state" where
  "fetchDataFailed st = st\<lparr>loading := False\<rparr>"

subsection \<open>Pagination\<close>

text \<open>
  The render body computes these from the filtered and sorted sequence and the
  current page.
\<close>

definition totalPages :: "'a list \<Rightarrow> int" where
  "totalPages xs = \<lceil>(of_nat (length xs) :: rat) / of_nat itemsPerPage\<rceil>"

definition currentData :: "'a list \<Rightarrow> int \<Rightarrow> 'a list" where
  "currentData xs page =
     (let startIndex = (page - 1) * int itemsPerPage;
          endIndex = startIndex + int itemsPerPage
      in slice xs startIndex endIndex)"

subsection \<open>exportToCSV\<close>

datatype effect =
  Alert string
| Navigate string
| Download string string
| ConsoleError string

text \<open>\<open>value.replace(/"/g, '""')\<close>.\<close>

definition replaceQuotes :: "string \<Rightarrow> string" where
  "replaceQuotes s = concat (map (\<lambda>c. if c = dquote then [dquote, dquote] else [c]) s)"

text \<open>
  The callback that maps a column to its cell: a string holding a comma or a
  double quote is wrapped and its quotes doubled, every other value is returned
  as it is.
\<close>

definition exportCell :: "jsprop \<Rightarrow> jsprop" where
  "exportCell v =
     (case v of
        Value (JStr s) \<Rightarrow>
          if includesStr s [comma] \<or> includesStr s [dquote]
          then Value (JStr ([dquote] @ replaceQuotes s @ [dquote]))
          else v
      | _ \<Rightarrow> v)"

text \<open>
  \<open>join\<close> converts each element to a string; \<open>undefined\<close> and \<open>null\<close> become
  the empty string.
\<close>

definition joinElem :: "host \<Rightarrow> jsprop \<Rightarrow> string" where
  "joinElem h v =
     (case v of
        Undefined \<Rightarrow> []
      | Value JNull \<Rightarrow> []
      | Value x \<Rightarrow> toString h x
      | Inherited s \<Rightarrow> s)"

definition csvRow :: "host \<Rightarrow> string list \<Rightarrow> StockData \<Rightarrow> string" where
  "csvRow h columns row =
     join [comma] (map (\<lambda>col. joinElem h (exportCell (getProp h row col))) columns)"

text \<open>
  The handler returns the effects it causes and the component state, which it
  never sets. \<open>isoNow\<close> is \<open>new Date().toISOString()\<close>.
\<close>

definition exportToCSV :: "host \<Rightarrow> string \<Rightarrow> qr_state \<Rightarrow> effect list \<times> qr_state" where
  "exportToCSV h isoNow st =
     (let filteredData = sortData h st (applyFilters h st)
      in case filteredData of
           [] \<Rightarrow> ([Alert ''No data to export''], st)
         | first # _ \<Rightarrow>
             (let columns = map fst first;
                  csvContent = join [newline]
                    (join [comma] columns # map (csvRow h columns) filteredData)
              in ([Download (''stock-query-results-''
                     @ takeWhile (\<lambda>c. c \<noteq> CHR ''T'') isoNow @ ''.csv'') csvContent], st)))"




subsection \<open>saveQuery of QueryResult: capturing the pipeline state\<close>

text \<open>
  The object that is encoded into the URL of the save page. The save page
  decodes it again; encoding and decoding are taken to give back the same
  object. The decoded object is typed as a saved query whose \<open>id\<close> is optional;
  its name, description and tags are always overwritten on saving, so they
  are not represented.
\<close>

record queryData =
  qd_id :: "string option"
  qd_filters :: Filters
  qd_sortConfig :: "sortConfig option"
  qd_timestamp :: string
  qd_resultCount :: nat
  qd_totalCount :: nat

definition saveQueryQR :: "host \<Rightarrow> string \<Rightarrow> qr_state \<Rightarrow> queryData" where
  "saveQueryQR h isoNow st =
     \<lparr>qd_id = None,
      qd_filters = filters st,
      qd_sortConfig = sortConfig st,
      qd_timestamp = isoNow,
      qd_resultCount = length (applyFilters h st),
      qd_totalCount = length (data st)\<rparr>"

section \<open>The saved query store\<close>

record SavedQuery =
  sq_id :: "string option"
  sq_name :: string
  sq_description :: string
  sq_tags :: "string list"
  sq_filters :: Filters
  sq_sortConfig :: "sortConfig option"
  sq_timestamp :: string
  sq_resultCount :: nat
  sq_totalCount :: nat

text \<open>
  \<open>localStorage\<close> maps keys to texts. A text under the store's key either is
  the JSON of a collection of saved queries, which \<open>JSON.parse\<close> gives back, or
  is rejected by \<open>JSON.parse\<close>. An absent key and the empty text are both
  \<open>None\<close>: the code treats them alike.
\<close>

datatype blob = Corrupt | Collection "SavedQuery list"

type_synonym localStorage = "string \<Rightarrow> blob option"

definition storageKey :: string where
  "storageKey = ''savedStockQueries''"

text \<open>
  \<open>JSON.parse(localStorage.getItem(key) || '[]')\<close>; \<open>None\<close> is the exception
  thrown for a text that does not parse.
\<close>

definition readCollection :: "localStorage \<Rightarrow> SavedQuery list option" where
  "readCollection ls =
     (case ls storageKey of
        None \<Rightarrow> Some []
      | Some Corrupt \<Rightarrow> None
      | Some (Collection qs) \<Rightarrow> Some qs)"

text \<open>
  \<open>loadSavedQueries\<close> of the save page and of the page of saved queries: the
  component's list is replaced when a text is stored and parses, and left as
  it is otherwise.
\<close>

definition loadSavedQueries :: "SavedQuery list \<Rightarrow> localStorage \<Rightarrow> SavedQuery list" where
  "loadSavedQueries savedQueries ls =
     (case ls storageKey of
        None \<Rightarrow> savedQueries
      | Some Corrupt \<Rightarrow> savedQueries
      | Some (Collection qs) \<Rightarrow> qs)"

text \<open>\<open>Date.now().toString()\<close>: the decimal digits of the clock's milliseconds.\<close>

fun decimal :: "nat \<Rightarrow> string" where
  "decimal n =
     (if n < 10 then [char_of (48 + n)]
      else decimal (n div 10) @ [char_of (48 + n mod 10)])"

text \<open>
  \<open>deleteQuery\<close>, the same text in the save page and in the page of saved
  queries. \<open>confirmed\<close> is the answer to the confirmation dialog;
  \<open>savedQueries\<close> is the component's list.
\<close>

definition deleteQuery ::
  "bool \<Rightarrow> string \<Rightarrow> SavedQuery list \<Rightarrow> localStorage \<Rightarrow> SavedQuery list \<times> localStorage" where
  "deleteQuery confirmed i savedQueries ls =
     (if confirmed
      then (let updatedQueries = filter (\<lambda>q. sq_id q \<noteq> Some i) savedQueries
            in (updatedQueries, ls(storageKey \<mapsto> Collection updatedQueries)))
      else (savedQueries, ls))"

record save_state =
  queryData :: "queryData option"
  name :: string
  description :: string
  selectedTags :: "string list"
  saving :: bool
  savedQueries :: "SavedQuery list"

text \<open>
  The object literal \<open>newQuery\<close> of \<open>saveQuery\<close>. \<open>now\<close> is \<open>Date.now()\<close>. The
  generated id comes first in the literal and the spread of the decoded object
  after it, so an id carried by that object wins; name, description and tags
  come last and are those of the form.
\<close>

definition newQuery :: "host \<Rightarrow> nat \<Rightarrow> save_state \<Rightarrow> queryData \<Rightarrow> SavedQuery" where
  "newQuery h now st qd =
     \<lparr>sq_id = (case qd_id qd of None \<Rightarrow> Some (decimal now) | Some i \<Rightarrow> Some i),
      sq_name = trim h (name st),
      sq_description = trim h (description st),
      sq_tags = selectedTags st,
      sq_filters = qd_filters qd,
      sq_sortConfig = qd_sortConfig qd,
      sq_timestamp = qd_timestamp qd,
      sq_resultCount = qd_resultCount qd,
      sq_totalCount = qd_totalCount qd\<rparr>"

text \<open>
  \<open>saveQuery\<close> of the save page, the store's create. It returns the effects,
  the component state and the storage. An exception inside the \<open>try\<close> block is
  caught, logged and reported; \<open>saving\<close> is lowered at the end in either case.
\<close>

definition saveQuery ::
  "host \<Rightarrow> nat \<Rightarrow> save_state \<Rightarrow> localStorage \<Rightarrow> effect list \<times> save_state \<times> localStorage" where
  "saveQuery h now st ls =
     (case queryData st of
        None \<Rightarrow> ([Alert ''Please enter a name for your query''], st, ls)
      | Some qd \<Rightarrow>
          if trim h (name st) = [] then ([Alert ''Please enter a name for your query''], st, ls)
          else
            (case readCollection ls of
               None \<Rightarrow>
                 ([ConsoleError ''Error saving query:'',
                   Alert ''Error saving query. Please try again.''],
                  st\<lparr>saving := False\<rparr>, ls)
             | Some existingQueries \<Rightarrow>
                 (let updatedQueries = existingQueries @ [newQuery h now st qd]
                  in ([Alert ''Query saved successfully!'', Navigate ''/my-query''],
                      st\<lparr>saving := False\<rparr>,
                      ls(storageKey \<mapsto> Collection updatedQueries)))))"

declare decimal.simps [simp del]

section \<open>Properties of the host\<close>


text \<open>
  What the sorting claims need of the host's collation: comparing in the other
  order gives the opposite sign.
\<close>

definition antisymCompare :: "host \<Rightarrow> bool" where
  "antisymCompare h \<longleftrightarrow> (\<forall>s t. sgn (localeCompare h t s) = - sgn (localeCompare h s t))"

text \<open>
  What the filtering claims need of the host's case folding: only the empty
  string folds to the empty string.
\<close>

definition lowerKeepsEmpty :: "host \<Rightarrow> bool" where
  "lowerKeepsEmpty h \<longleftrightarrow> (\<forall>s. toLowerCase h s = [] \<longleftrightarrow> s = [])"

section \<open>Sample inputs\<close>

text \<open>
  A host and a few states on which the model is evaluated. The sample host
  prints the natural numbers in decimal, compares strings by their characters'
  codes, folds the letters A to Z, trims the ASCII white space, knows the
  properties of \<open>Object.prototype\<close> with the string forms a browser gives them,
  and sorts by stable insertion whatever the comparator. On ASCII strings and
  natural numbers it agrees with JavaScript.
\<close>

fun codeUnitCompare :: "string \<Rightarrow> string \<Rightarrow> int" where
  "codeUnitCompare [] [] = 0"
| "codeUnitCompare [] (y # ys) = - 1"
| "codeUnitCompare (x # xs) [] = 1"
| "codeUnitCompare (x # xs) (y # ys) =
     (if x = y then codeUnitCompare xs ys
      else if (of_char x :: nat) < of_char y then - 1 else 1)"

definition lowerChar :: "char \<Rightarrow> char" where
  "lowerChar c =
     (let n = (of_char c :: nat) in if 65 \<le> n \<and> n \<le> 90 then char_of (n + 32) else c)"

definition asciiLower :: "string \<Rightarrow> string" where
  "asciiLower s = map lowerChar s"

definition isSpace :: "char \<Rightarrow> bool" where
  "isSpace c \<longleftrightarrow> c \<in> set [CHR '' '', CHR 0x09, CHR 0x0A, CHR 0x0B, CHR 0x0C, CHR 0x0D]"

definition asciiTrim :: "string \<Rightarrow> string" where
  "asciiTrim s = rev (dropWhile isSpace (rev (dropWhile isSpace s)))"

definition nativeText :: "string \<Rightarrow> string" where
  "nativeText f = ''function '' @ f @ ''() { [native code] }''"

definition objectPrototypeText :: "string \<Rightarrow> string option" where
  "objectPrototypeText k =
     (if k = ''__proto__'' then Some ''[object Object]''
      else if k = ''constructor'' then Some (nativeText ''Object'')
      else if k \<in> set [''toString'', ''toLocaleString'', ''valueOf'', ''hasOwnProperty'',
                ''isPrototypeOf'', ''propertyIsEnumerable'', ''__defineGetter__'',
                ''__defineSetter__'', ''__lookupGetter__'', ''__lookupSetter__'']
      then Some (nativeText k)
      else None)"

definition sampleHost :: host where
  "sampleHost =
     \<lparr>numToString = (\<lambda>q. decimal (nat \<lfloor>q\<rfloor>)),
      localeCompare = codeUnitCompare,
      toLowerCase = asciiLower,
      trim = asciiTrim,
      inheritedText = objectPrototypeText,
      sortOrder = stableSort\<rparr>"

definition sampleData :: "StockData list" where
  "sampleData =
     [[(''Name'', JStr ''Tata Steel''), (''P/E'', JNum 12), (''ROCE %'', JNum 9)],
      [(''Name'', JStr ''Infosys''), (''P/E'', JNum 112), (''ROCE %'', JNull)],
      [(''Name'', JStr ''Wipro''), (''ROCE %'', JNum 30)]]"

definition sampleState :: qr_state where
  "sampleState =
     \<lparr>data = sampleData, filters = [(''P/E'', ''12''), (''Name'', [])],
      loading = False, sortConfig = None, currentPage = 1\<rparr>"

definition emptyResultState :: qr_state where
  "emptyResultState = sampleState\<lparr>filters := [(''Sector'', ''bank'')]\<rparr>"

definition sortedState :: qr_state where
  "sortedState =
     sampleState\<lparr>filters := [], sortConfig := Some \<lparr>key = ''ROCE %'', direction = Desc\<rparr>\<rparr>"

text \<open>
  A state reached from the initial one: no search parameters, twenty-one rows
  fetched, and the second page chosen.
\<close>

definition manyRows :: "StockData list" where
  "manyRows = map (\<lambda>i. [(''S.No'', JNum (of_nat i))]) [1..<22]"

definition pagedState :: qr_state where
  "pagedState = handlePageChange 2 (fetchDataDone manyRows (searchParamsEffect [] initialState))"

text \<open>A save page that holds a captured query and a name, and stores to start from.\<close>

definition sampleCapture :: queryData where
  "sampleCapture = saveQueryQR sampleHost ''2024-05-01T10:00:00.000Z'' sampleState"

definition sampleSave :: save_state where
  "sampleSave =
     \<lparr>queryData = Some sampleCapture,
      name = '' Low PE '', description = [], selectedTags = [''a1''],
      saving = False, savedQueries = []\<rparr>"

definition emptyStorage :: localStorage where
  "emptyStorage = (\<lambda>k. None)"

definition corruptStorage :: localStorage where
  "corruptStorage = emptyStorage(storageKey \<mapsto> Corrupt)"

definition firstQuery :: SavedQuery where
  "firstQuery = newQuery sampleHost 1714557600000 sampleSave sampleCapture"

definition secondQuery :: SavedQuery where
  "secondQuery = newQuery sampleHost 1714557600001 sampleSave sampleCapture"

definition storageAfterOne :: localStorage where
  "storageAfterOne = snd (snd (saveQuery sampleHost 1714557600000 sampleSave emptyStorage))"

definition storageAfterTwo :: localStorage where
  "storageAfterTwo = snd (snd (saveQuery sampleHost 1714557600001 sampleSave storageAfterOne))"

text \<open>
  A filter whose letters differ in case from the data, a filter on a name
  that no record has but every object inherits, a column that mixes numbers
  with a string, and a result with a cell to quote.
\<close>

definition foldingState :: qr_state where
  "foldingState = sampleState\<lparr>filters := [(''Name'', ''TATA'')]\<rparr>"

definition inheritedState :: qr_state where
  "inheritedState =
     fetchDataDone sampleData (searchParamsEffect [(''constructor'', ''object'')] initialState)"

definition mixedRows :: "StockData list" where
  "mixedRows = [[(''V'', JNum 2)], [(''V'', JStr ''1a'')], [(''V'', JNum 10)]]"

definition mixedState :: qr_state where
  "mixedState =
     \<lparr>data = mixedRows, filters = [], loading = False,
      sortConfig = Some \<lparr>key = ''V'', direction = Asc\<rparr>, currentPage = 1\<rparr>"


section \<open>Pagination lemmas\<close>

lemma totalPages_div: "totalPages xs = int ((length xs + 19) div 20)"
proof -
  have "\<lceil>(of_nat (length xs) :: rat) / of_nat 20\<rceil> = - ((- int (length xs)) div 20)"
    using ceiling_divide_eq_div [of "int (length xs)" 20] by simp
  then show ?thesis
    unfolding totalPages_def itemsPerPage_def by linarith
qed

lemma slice_nonneg:
  assumes "0 \<le> s"
  shows "slice xs s (s + int k) = take k (drop (nat s) xs)"
proof -
  obtain m where m: "s = int m"
    using assms nonneg_int_cases by blast
  show ?thesis
  proof (cases "m \<le> length xs")
    case True
    then have k: "min (int m) (int (length xs)) = int m" by simp
    have "nat (min (int m + int k) (int (length xs)) - int m) = min k (length xs - m)"
      using True by (auto simp: min_def)
    then have "slice xs s (s + int k) = take (min k (length xs - m)) (drop m xs)"
      by (simp add: slice_def Let_def m k del: of_nat_add)
    then show ?thesis by (simp add: m min_def)
  next
    case False
    then have "min (int m) (int (length xs)) = int (length xs)"
      and "min (int m + int k) (int (length xs)) = int (length xs)" by simp_all
    then have "slice xs s (s + int k) = []"
      by (simp add: slice_def Let_def m del: of_nat_add)
    then show ?thesis using False by (simp add: m)
  qed
qed

lemma currentData_take_drop:
  "1 \<le> p \<Longrightarrow> currentData xs p = take itemsPerPage (drop (nat (p - 1) * itemsPerPage) xs)"
  unfolding currentData_def Let_def
  using slice_nonneg [of "(p - 1) * int itemsPerPage" xs itemsPerPage]
  by (simp add: nat_mult_distrib)

lemma concat_windows:
  "concat (map (\<lambda>i. take k (drop (i * k) xs)) [0..<n]) = take (n * k) xs"
proof (induction n)
  case 0
  show ?case by simp
next
  case (Suc n)
  have "take (n * k) xs @ take k (drop (n * k) xs) = take (n * k + k) xs"
    by (simp add: take_add)
  with Suc show ?case by (simp add: add.commute)
qed

lemma pages_as_windows:
  "map (currentData xs) [1..int n] =
     map (\<lambda>i. take itemsPerPage (drop (i * itemsPerPage) xs)) [0..<n]"
proof (induction n)
  case 0
  show ?case by simp
next
  case (Suc n)
  have "[1..int (Suc n)] = [1..int n] @ [int n + 1]"
    using upto_rec2 [of 1 "int n + 1"] by (simp add: add.commute)
  then show ?case using Suc currentData_take_drop [of "int n + 1" xs] by simp
qed

section \<open>Pagination: the pages partition the sequence\<close>

text \<open>
  Claim C5. For every sequence \<open>xs\<close> of length \<open>N\<close> and page size 20:
  \<open>totalPages\<close> is the least integer \<open>t\<close> with \<open>N \<le> 20 t\<close>, that is
  \<open>ceil (N / 20)\<close>, and it is 0 when \<open>N = 0\<close>; page \<open>p \<ge> 1\<close> is the 20 elements
  from index \<open>(p - 1) * 20\<close> on, cut at the end of the sequence; the pages
  \<open>1 .. totalPages\<close> concatenated give back the sequence; and when \<open>N > 0\<close> the
  last page has between 1 and 20 elements.
\<close>

theorem paginate_pages:
  fixes xs :: "'a list"
  shows "20 * (totalPages xs - 1) < int (length xs) \<and> int (length xs) \<le> 20 * totalPages xs
    \<and> (length xs = 0 \<longrightarrow> totalPages xs = 0)
    \<and> (\<forall>p\<ge>1. currentData xs p = take 20 (drop (nat (p - 1) * 20) xs))
    \<and> concat (map (currentData xs) [1..totalPages xs]) = xs
    \<and> (0 < length xs \<longrightarrow>
          1 \<le> length (currentData xs (totalPages xs))
          \<and> length (currentData xs (totalPages xs)) \<le> 20)"
proof -
  define n where "n = (length xs + 19) div 20"
  have tp: "totalPages xs = int n"
    unfolding n_def by (rule totalPages_div)
  have n: "length xs \<le> 20 * n \<and> 20 * n < length xs + 20"
    unfolding n_def by arith
  then have bounds: "20 * (totalPages xs - 1) < int (length xs) \<and> int (length xs) \<le> 20 * totalPages xs"
    unfolding tp by presburger
  have zero: "length xs = 0 \<longrightarrow> totalPages xs = 0"
    unfolding tp using n by auto
  have page: "\<forall>p\<ge>1. currentData xs p = take 20 (drop (nat (p - 1) * 20) xs)"
    using currentData_take_drop [of _ xs] by (simp add: itemsPerPage_def)
  have "concat (map (currentData xs) [1..int n]) = take (n * itemsPerPage) xs"
    by (simp only: pages_as_windows concat_windows)
  moreover have "length xs \<le> n * itemsPerPage"
    unfolding itemsPerPage_def using n by linarith
  ultimately have cat: "concat (map (currentData xs) [1..totalPages xs]) = xs"
    unfolding tp by simp
  have last: "0 < length xs \<longrightarrow>
          1 \<le> length (currentData xs (totalPages xs))
          \<and> length (currentData xs (totalPages xs)) \<le> 20"
  proof
    assume pos: "0 < length xs"
    then have one: "1 \<le> totalPages xs" using n unfolding tp by linarith
    have "nat (totalPages xs - 1) = n - 1"
      unfolding tp by simp
    moreover have "(n - 1) * 20 < length xs"
      using n pos by arith
    ultimately have "nat (totalPages xs - 1) * 20 < length xs"
      by simp
    then show "1 \<le> length (currentData xs (totalPages xs))
          \<and> length (currentData xs (totalPages xs)) \<le> 20"
      using page one by simp
  qed
  from bounds zero page cat last show ?thesis by blast
qed

theorem paginate_pages_witness:
  "0 < length [0..<45]
   \<and> totalPages [0..<45] = 3
   \<and> 1 \<le> length (currentData [0..<45] (totalPages [0..<45]))
   \<and> length (currentData [0..<45] (totalPages [0..<45])) \<le> 20
   \<and> (1::int) \<le> 3
   \<and> currentData [0..<45] 3 = [40, 41, 42, 43, 44]
   \<and> concat (map (currentData [0..<45]) [1..3]) = [0..<45]"
proof -
  note t = paginate_pages [of "[0..<45]"]
  have pos: "0 < length [0..<45]" by simp
  have tp: "totalPages [0..<45] = 3" using t by simp
  have len: "1 \<le> length (currentData [0..<45] (totalPages [0..<45]))
      \<and> length (currentData [0..<45] (totalPages [0..<45])) \<le> 20"
    using t pos by blast
  have three: "(1::int) \<le> 3" by simp
  then have "currentData [0..<45] 3 = take 20 (drop (nat (3 - 1) * 20) [0..<45])"
    using t by blast
  then have p3: "currentData [0..<45] 3 = [40, 41, 42, 43, 44]"
    by (simp add: upt_rec)
  have "concat (map (currentData [0..<45]) [1..3]) = [0..<45]"
    using t tp by simp
  with pos tp len three p3 show ?thesis by blast
qed

text \<open>
  Claim C10. For every sequence of length \<open>N\<close> and every page number \<open>p \<ge> 1\<close>,
  \<open>currentData\<close> is a total function of the sequence and the page (the slice
  has no failing branch), and when \<open>(p - 1) * 20 \<ge> N\<close> the page is empty, also
  for \<open>p\<close> beyond \<open>totalPages\<close>.
\<close>

theorem page_past_end_empty:
  "1 \<le> p \<Longrightarrow> int (length xs) \<le> (p - 1) * 20 \<Longrightarrow> currentData xs p = []"
  using currentData_take_drop [of p xs] by (simp add: itemsPerPage_def)

theorem page_past_end_empty_witness:
  "(1::int) \<le> 4 \<and> int (length [0..<45]) \<le> (4 - 1) * 20 \<and> currentData [0..<45] 4 = []"
  using page_past_end_empty [of 4 "[0..<45]"] by simp

section \<open>Filtering\<close>

lemma asciiLower_Nil_iff: "asciiLower s = [] \<longleftrightarrow> s = []"
  by (simp add: asciiLower_def)

lemma sampleHost_lower: "lowerKeepsEmpty sampleHost"
  by (simp add: lowerKeepsEmpty_def sampleHost_def asciiLower_Nil_iff)

lemma filterKeyOk_all:
  assumes low: "lowerKeepsEmpty h"
  shows "list_all (filterKeyOk h fs item) (map fst fs) \<longleftrightarrow>
     (\<forall>f v. map_of fs f = Some v \<and> v \<noteq> [] \<longrightarrow>
        sublist (toLowerCase h v) (toLowerCase h (strOrEmpty h (getProp h item f))))"
proof
  assume all: "list_all (filterKeyOk h fs item) (map fst fs)"
  show "\<forall>f v. map_of fs f = Some v \<and> v \<noteq> [] \<longrightarrow>
        sublist (toLowerCase h v) (toLowerCase h (strOrEmpty h (getProp h item f)))"
  proof (intro allI impI)
    fix f v
    assume fv: "map_of fs f = Some v \<and> v \<noteq> []"
    then have "f \<in> set (map fst fs)"
      by (metis map_of_eq_None_iff option.distinct(1) set_map)
    with all have "filterKeyOk h fs item f"
      by (auto simp: list_all_iff)
    with fv show "sublist (toLowerCase h v) (toLowerCase h (strOrEmpty h (getProp h item f)))"
      by (simp add: filterKeyOk_def strOrEmpty_def includesStr_def split: option.splits)
  qed
next
  assume spec: "\<forall>f v. map_of fs f = Some v \<and> v \<noteq> [] \<longrightarrow>
        sublist (toLowerCase h v) (toLowerCase h (strOrEmpty h (getProp h item f)))"
  have empty: "toLowerCase h [] = []"
    using low by (simp add: lowerKeepsEmpty_def)
  have "filterKeyOk h fs item k" for k
  proof (cases "map_of fs k")
    case None
    then show ?thesis by (simp add: filterKeyOk_def)
  next
    case (Some v)
    show ?thesis
    proof (cases "v = []")
      case True
      with Some show ?thesis by (simp add: filterKeyOk_def)
    next
      case False
      with Some spec
      have sub: "sublist (toLowerCase h v) (toLowerCase h (strOrEmpty h (getProp h item k)))"
        by blast
      show ?thesis
      proof (cases "optToString h (getProp h item k)")
        case None
        with sub empty have "toLowerCase h v = []"
          by (simp add: strOrEmpty_def)
        with False low show ?thesis by (simp add: lowerKeepsEmpty_def)
      next
        case (Some s)
        with sub \<open>map_of fs k = Some v\<close> False show ?thesis
          by (simp add: filterKeyOk_def strOrEmpty_def includesStr_def)
      qed
    qed
  qed
  then show "list_all (filterKeyOk h fs item) (map fst fs)"
    by (simp add: list_all_iff)
qed

lemma strOrEmpty_missing:
  "map_of item f = None \<Longrightarrow>
     strOrEmpty h (getProp h item f) = (case inheritedText h f of None \<Rightarrow> [] | Some s \<Rightarrow> s)"
  by (simp add: strOrEmpty_def getProp_def split: option.splits)

lemma strOrEmpty_null: "map_of item f = Some JNull \<Longrightarrow> strOrEmpty h (getProp h item f) = []"
  by (simp add: strOrEmpty_def getProp_def)

text \<open>
  Claim C1 says that a record is kept exactly when every non-empty constraint
  is a case-folded substring of the string form of the record's value, a
  missing field counting as the empty string, so that a non-empty constraint
  on a missing field excludes the record. The code reads \<open>item[key]\<close>, which
  for a name the record does not have gives what every object inherits under
  that name. No sample record has a field \<open>constructor\<close>, yet the constraint
  \<open>object\<close> on it keeps every record: the inherited value is the function
  \<open>Object\<close>, whose string form holds the word.
\<close>

theorem applyFilters_inherited_counterexample:
  "filters inheritedState = [(''constructor'', ''object'')]
   \<and> data inheritedState = sampleData
   \<and> map_of (sampleData ! 0) ''constructor'' = None
   \<and> map_of (sampleData ! 1) ''constructor'' = None
   \<and> map_of (sampleData ! 2) ''constructor'' = None
   \<and> applyFilters sampleHost inheritedState = sampleData"
proof -
  have f: "filters inheritedState = [(''constructor'', ''object'')]"
    and d: "data inheritedState = sampleData"
    by (simp_all add: inheritedState_def fetchDataDone_def searchParamsEffect_def)
  have m: "map_of (sampleData ! 0) ''constructor'' = None"
    "map_of (sampleData ! 1) ''constructor'' = None"
    "map_of (sampleData ! 2) ''constructor'' = None"
    by (simp_all add: sampleData_def)
  have a: "applyFilters sampleHost inheritedState = sampleData"
    by code_simp
  from f d m a show ?thesis by (intro conjI)
qed

text \<open>
  Claim C1 as amended. \<open>applyFilters\<close> keeps exactly the records for which
  every filter entry \<open>(f, v)\<close> with a non-empty \<open>v\<close> has the lower-cased \<open>v\<close> as
  a substring of the lower-cased string form of what the record reads at \<open>f\<close>.
  Reading a field that the record does not have gives the property inherited
  from \<open>Object.prototype\<close> under that name where there is one, and nothing
  otherwise; the string form of nothing, and of \<open>null\<close>, is the empty string.
  So a non-empty constraint on a missing field excludes the record unless the
  field's name is that of an inherited property. The kept records stand in
  their original order, and the function sets nothing. This uses that the
  host folds only the empty string to the empty string.
\<close>

theorem applyFilters_keeps_iff:
  assumes "lowerKeepsEmpty h"
  shows "applyFilters h st =
     filter (\<lambda>item. \<forall>f v. map_of (filters st) f = Some v \<and> v \<noteq> [] \<longrightarrow>
        sublist (toLowerCase h v) (toLowerCase h (strOrEmpty h (getProp h item f)))) (data st)
   \<and> subseq (applyFilters h st) (data st)
   \<and> (\<forall>item f. map_of item f = None \<longrightarrow>
         strOrEmpty h (getProp h item f) = (case inheritedText h f of None \<Rightarrow> [] | Some s \<Rightarrow> s))
   \<and> (\<forall>item f. map_of item f = Some JNull \<longrightarrow> strOrEmpty h (getProp h item f) = [])
   \<and> (\<forall>item f v. map_of (filters st) f = Some v \<and> v \<noteq> [] \<and> map_of item f = None
           \<and> inheritedText h f = None
         \<longrightarrow> item \<notin> set (applyFilters h st))"
proof -
  have eq: "applyFilters h st =
     filter (\<lambda>item. \<forall>f v. map_of (filters st) f = Some v \<and> v \<noteq> [] \<longrightarrow>
        sublist (toLowerCase h v) (toLowerCase h (strOrEmpty h (getProp h item f)))) (data st)"
    unfolding applyFilters_def by (simp add: filterKeyOk_all [OF assms])
  have sub: "subseq (applyFilters h st) (data st)"
    unfolding applyFilters_def by simp
  have missing: "\<forall>item f. map_of item f = None \<longrightarrow>
         strOrEmpty h (getProp h item f) = (case inheritedText h f of None \<Rightarrow> [] | Some s \<Rightarrow> s)"
    by (simp add: strOrEmpty_missing)
  have null: "\<forall>item f. map_of item f = Some JNull \<longrightarrow> strOrEmpty h (getProp h item f) = []"
    by (simp add: strOrEmpty_null)
  have out: "item \<notin> set (applyFilters h st)"
    if "map_of (filters st) f = Some v \<and> v \<noteq> [] \<and> map_of item f = None
        \<and> inheritedText h f = None" for item f v
  proof
    assume "item \<in> set (applyFilters h st)"
    then have "\<forall>f v. map_of (filters st) f = Some v \<and> v \<noteq> [] \<longrightarrow>
        sublist (toLowerCase h v) (toLowerCase h (strOrEmpty h (getProp h item f)))"
      unfolding eq by simp
    with that have "sublist (toLowerCase h v) (toLowerCase h (strOrEmpty h (getProp h item f)))"
      by blast
    moreover from that have "strOrEmpty h (getProp h item f) = []"
      by (simp add: strOrEmpty_missing)
    moreover have "toLowerCase h [] = []"
      using assms by (simp add: lowerKeepsEmpty_def)
    ultimately have "toLowerCase h v = []" by simp
    with that assms show False by (simp add: lowerKeepsEmpty_def)
  qed
  from eq sub missing null out show ?thesis by blast
qed

theorem applyFilters_keeps_iff_witness:
  "lowerKeepsEmpty sampleHost
   \<and> map_of (filters foldingState) ''Name'' = Some ''TATA'' \<and> ''TATA'' \<noteq> []
   \<and> toLowerCase sampleHost ''TATA'' = ''tata''
   \<and> applyFilters sampleHost foldingState = [sampleData ! 0]
   \<and> sublist (toLowerCase sampleHost ''TATA'')
        (toLowerCase sampleHost (strOrEmpty sampleHost (getProp sampleHost (sampleData ! 0) ''Name'')))
   \<and> map_of (filters sampleState) ''P/E'' = Some ''12'' \<and> ''12'' \<noteq> []
   \<and> map_of (sampleData ! 2) ''P/E'' = None \<and> inheritedText sampleHost ''P/E'' = None
   \<and> strOrEmpty sampleHost (getProp sampleHost (sampleData ! 2) ''P/E'') = []
   \<and> sampleData ! 2 \<notin> set (applyFilters sampleHost sampleState)
   \<and> map_of (sampleData ! 1) ''ROCE %'' = Some JNull
   \<and> strOrEmpty sampleHost (getProp sampleHost (sampleData ! 1) ''ROCE %'') = []"
proof -
  have low: "lowerKeepsEmpty sampleHost" by (rule sampleHost_lower)
  note t = applyFilters_keeps_iff [OF low, of foldingState]
  note u = applyFilters_keeps_iff [OF low, of sampleState]
  have f: "map_of (filters foldingState) ''Name'' = Some ''TATA'' \<and> ''TATA'' \<noteq> []"
    by (simp add: foldingState_def)
  have lc: "toLowerCase sampleHost ''TATA'' = ''tata''"
    by code_simp
  have kept: "applyFilters sampleHost foldingState = [sampleData ! 0]"
    by code_simp
  then have inn: "sampleData ! 0 \<in> set (applyFilters sampleHost foldingState)"
    by simp
  from t have "sampleData ! 0 \<in> set (applyFilters sampleHost foldingState) \<longrightarrow>
      (\<forall>f v. map_of (filters foldingState) f = Some v \<and> v \<noteq> [] \<longrightarrow>
          sublist (toLowerCase sampleHost v)
            (toLowerCase sampleHost (strOrEmpty sampleHost (getProp sampleHost (sampleData ! 0) f))))"
    by simp
  with inn f have s: "sublist (toLowerCase sampleHost ''TATA'')
        (toLowerCase sampleHost (strOrEmpty sampleHost (getProp sampleHost (sampleData ! 0) ''Name'')))"
    by blast
  have g: "map_of (filters sampleState) ''P/E'' = Some ''12'' \<and> ''12'' \<noteq> []"
    by (simp add: sampleState_def)
  have m: "map_of (sampleData ! 2) ''P/E'' = None"
    by (simp add: sampleData_def)
  have i: "inheritedText sampleHost ''P/E'' = None"
    by (simp add: sampleHost_def objectPrototypeText_def)
  from u m have "strOrEmpty sampleHost (getProp sampleHost (sampleData ! 2) ''P/E'')
      = (case inheritedText sampleHost ''P/E'' of None \<Rightarrow> [] | Some s \<Rightarrow> s)"
    by blast
  with i have e: "strOrEmpty sampleHost (getProp sampleHost (sampleData ! 2) ''P/E'') = []"
    by simp
  from u g m i have out: "sampleData ! 2 \<notin> set (applyFilters sampleHost sampleState)"
    by blast
  have n: "map_of (sampleData ! 1) ''ROCE %'' = Some JNull"
    by (simp add: sampleData_def)
  with u have ne: "strOrEmpty sampleHost (getProp sampleHost (sampleData ! 1) ''ROCE %'') = []"
    by blast
  from low f lc kept s g m i e out n ne show ?thesis by (intro conjI) simp_all
qed

section \<open>CSV export\<close>





















text \<open>
  Claim C8. In every state whose filtered and sorted result is empty, the
  export handler only raises the notice \<open>No data to export\<close>: it produces no
  CSV text and no download, and the component state is as before.
\<close>

theorem export_empty_rejected:
  "filteredAndSortedData h st = [] \<Longrightarrow>
     exportToCSV h isoNow st = ([Alert ''No data to export''], st)"
  by (simp add: exportToCSV_def filteredAndSortedData_def)

theorem export_empty_rejected_witness:
  "filteredAndSortedData sampleHost emptyResultState = []
   \<and> exportToCSV sampleHost ''2024-05-01T10:00:00.000Z'' emptyResultState
       = ([Alert ''No data to export''], emptyResultState)"
proof -
  have e: "filteredAndSortedData sampleHost emptyResultState = []"
    by code_simp
  from export_empty_rejected [OF e] e show ?thesis by blast
qed

section \<open>Sorting\<close>

lemma mset_insertBy: "mset (insertBy c x xs) = add_mset x (mset xs)"
  by (induction xs) simp_all

lemma mset_stableSort: "mset (stableSort c xs) = mset xs"
  unfolding stableSort_def by (induction xs) (simp_all add: mset_insertBy)

lemma set_insertBy: "set (insertBy c x xs) = insert x (set xs)"
  using mset_insertBy [of c x xs] by (metis set_mset_add_mset_insert set_mset_mset)

lemma set_stableSort: "set (stableSort c xs) = set xs"
  using mset_stableSort [of c xs] by (metis set_mset_mset)

lemma sorted_insertBy:
  assumes tot: "\<forall>y\<in>set xs. c x y \<le> 0 \<or> c y x \<le> 0"
    and tr: "\<forall>y\<in>set xs. \<forall>z\<in>set xs. c x y \<le> 0 \<and> c y z \<le> 0 \<longrightarrow> c x z \<le> 0"
    and srt: "sorted_wrt (\<lambda>a b. c a b \<le> 0) xs"
  shows "sorted_wrt (\<lambda>a b. c a b \<le> 0) (insertBy c x xs)"
  using assms
proof (induction xs)
  case Nil
  show ?case by simp
next
  case (Cons y ys)
  from Cons.prems(3) have after: "\<forall>z\<in>set ys. c y z \<le> 0"
    and rest: "sorted_wrt (\<lambda>a b. c a b \<le> 0) ys"
    by simp_all
  show ?case
  proof (cases "c x y \<le> 0")
    case True
    have "c x z \<le> 0" if "z \<in> set ys" for z
    proof -
      from that after have "c y z \<le> 0" by blast
      with True Cons.prems(2) that show ?thesis by (meson list.set_intros)
    qed
    with True after rest show ?thesis by simp
  next
    case False
    with Cons.prems(1) have yx: "c y x \<le> 0" by (meson list.set_intros(1))
    have "sorted_wrt (\<lambda>a b. c a b \<le> 0) (insertBy c x ys)"
    proof (rule Cons.IH)
      show "\<forall>z\<in>set ys. c x z \<le> 0 \<or> c z x \<le> 0"
        using Cons.prems(1) by (meson list.set_intros(2))
      show "\<forall>u\<in>set ys. \<forall>z\<in>set ys. c x u \<le> 0 \<and> c u z \<le> 0 \<longrightarrow> c x z \<le> 0"
        using Cons.prems(2) by (meson list.set_intros(2))
      show "sorted_wrt (\<lambda>a b. c a b \<le> 0) ys" by (rule rest)
    qed
    with False yx after show ?thesis
      by (simp add: set_insertBy)
  qed
qed

lemma consistentOn_total:
  assumes "consistentOn c xs" and "x \<in> set xs" and "y \<in> set xs"
  shows "c x y \<le> 0 \<or> c y x \<le> 0"
proof -
  from assms have "sgn (c y x) = - sgn (c x y)"
    unfolding consistentOn_def by blast
  then show ?thesis by (simp add: sgn_if split: if_splits)
qed

lemma consistentOn_trans:
  assumes "consistentOn c xs" and "x \<in> set xs" and "y \<in> set xs" and "z \<in> set xs"
    and "c x y \<le> 0" and "c y z \<le> 0"
  shows "c x z \<le> 0"
  using assms unfolding consistentOn_def by blast

lemma ordered_stableSort:
  assumes con: "consistentOn c xs"
  shows "orderedBy c (stableSort c xs)"
proof -
  have "set ys \<subseteq> set xs \<Longrightarrow> sorted_wrt (\<lambda>a b. c a b \<le> 0) (stableSort c ys)" for ys
  proof (induction ys)
    case Nil
    show ?case by (simp add: stableSort_def)
  next
    case (Cons y ys)
    then have sub: "set (stableSort c ys) \<subseteq> set xs" and y: "y \<in> set xs"
      by (simp_all add: set_stableSort)
    have "sorted_wrt (\<lambda>a b. c a b \<le> 0) (insertBy c y (stableSort c ys))"
    proof (rule sorted_insertBy)
      show "\<forall>z\<in>set (stableSort c ys). c y z \<le> 0 \<or> c z y \<le> 0"
        using consistentOn_total [OF con y] sub by blast
      show "\<forall>u\<in>set (stableSort c ys). \<forall>z\<in>set (stableSort c ys).
              c y u \<le> 0 \<and> c u z \<le> 0 \<longrightarrow> c y z \<le> 0"
        using consistentOn_trans [OF con y] sub by blast
      show "sorted_wrt (\<lambda>a b. c a b \<le> 0) (stableSort c ys)"
        using Cons by simp
    qed
    then show ?case by (simp add: stableSort_def)
  qed
  then show ?thesis by (simp add: orderedBy_def)
qed

lemma mset_arraySort: "mset (arraySort h c xs) = mset xs"
  by (simp add: arraySort_def mset_stableSort)

lemma arraySort_consistent: "consistentOn c xs \<Longrightarrow> arraySort h c xs = stableSort c xs"
  by (simp add: arraySort_def)

lemma arraySort_sampleHost: "arraySort sampleHost c xs = stableSort c xs"
  by (simp add: arraySort_def sampleHost_def)

lemma compareFn_numbers:
  "getProp h a k = Value (JNum x) \<Longrightarrow> getProp h b k = Value (JNum y) \<Longrightarrow>
     compareFn h \<lparr>key = k, direction = d\<rparr> a b = (if d = Asc then x - y else y - x)"
  by (simp add: compareFn_def Let_def)

lemma compareFn_strings:
  "(\<nexists>x. getProp h a k = Value (JNum x)) \<or> (\<nexists>y. getProp h b k = Value (JNum y)) \<Longrightarrow>
     compareFn h \<lparr>key = k, direction = d\<rparr> a b =
       (if d = Asc
        then of_int (localeCompare h (strOrEmpty h (getProp h a k)) (strOrEmpty h (getProp h b k)))
        else of_int (localeCompare h (strOrEmpty h (getProp h b k)) (strOrEmpty h (getProp h a k))))"
  by (auto simp: compareFn_def Let_def split: jsprop.splits jsval.splits)

lemma sgn_of_int_rat: "sgn (of_int i :: rat) = of_int (sgn i)"
  by (simp add: sgn_if)

lemma compareFn_flip:
  assumes "antisymCompare h"
  shows "sgn (compareFn h \<lparr>key = k, direction = Desc\<rparr> a b)
           = - sgn (compareFn h \<lparr>key = k, direction = Asc\<rparr> a b)"
proof (cases "(\<exists>x. getProp h a k = Value (JNum x)) \<and> (\<exists>y. getProp h b k = Value (JNum y))")
  case True
  then obtain x y where "getProp h a k = Value (JNum x)" "getProp h b k = Value (JNum y)"
    by blast
  then show ?thesis by (simp add: compareFn_numbers sgn_if)
next
  case False
  then have str: "(\<nexists>x. getProp h a k = Value (JNum x)) \<or> (\<nexists>y. getProp h b k = Value (JNum y))"
    by blast
  let ?A = "strOrEmpty h (getProp h a k)" and ?B = "strOrEmpty h (getProp h b k)"
  have "sgn (localeCompare h ?B ?A) = - sgn (localeCompare h ?A ?B)"
    using assms unfolding antisymCompare_def by blast
  then have "sgn (rat_of_int (localeCompare h ?B ?A)) = - sgn (rat_of_int (localeCompare h ?A ?B))"
    by (simp add: sgn_of_int_rat)
  then show ?thesis
    by (simp add: compareFn_strings [OF str])
qed

lemma codeUnitCompare_antisym: "sgn (codeUnitCompare t s) = - sgn (codeUnitCompare s t)"
proof (induction s t rule: codeUnitCompare.induct)
  case (4 x xs y ys)
  show ?case
  proof (cases "x = y")
    case True
    with 4 show ?thesis by simp
  next
    case False
    then have "(of_char x :: nat) \<noteq> of_char y" by simp
    then have "(of_char x :: nat) < of_char y \<or> (of_char y :: nat) < of_char x" by linarith
    with False show ?thesis by auto
  qed
qed simp_all

lemma sampleHost_antisym: "antisymCompare sampleHost"
  unfolding antisymCompare_def sampleHost_def
  by (simp only: host.simps) (intro allI, rule codeUnitCompare_antisym)

text \<open>
  Claim C6 says that with a sort configuration the records are ordered by the
  sort key, numbers compared as numbers and everything else as strings. On a
  column that mixes numbers with strings this comparison is not an order: of
  the values 2, \<open>1a\<close> and 10, the number 2 comes before 10, the string form of
  10 before \<open>1a\<close>, and \<open>1a\<close> before the string form of 2. No arrangement of the
  three records is ordered by it, and neither is the result of \<open>sortData\<close>.
\<close>

theorem sort_mixed_counterexample:
  "sortConfig mixedState = Some \<lparr>key = ''V'', direction = Asc\<rparr>
   \<and> compareFn sampleHost \<lparr>key = ''V'', direction = Asc\<rparr> (mixedRows ! 0) (mixedRows ! 2) < 0
   \<and> compareFn sampleHost \<lparr>key = ''V'', direction = Asc\<rparr> (mixedRows ! 2) (mixedRows ! 1) < 0
   \<and> compareFn sampleHost \<lparr>key = ''V'', direction = Asc\<rparr> (mixedRows ! 1) (mixedRows ! 0) < 0
   \<and> \<not> orderedBy (compareFn sampleHost \<lparr>key = ''V'', direction = Asc\<rparr>)
         [mixedRows ! 0, mixedRows ! 1, mixedRows ! 2]
   \<and> \<not> orderedBy (compareFn sampleHost \<lparr>key = ''V'', direction = Asc\<rparr>)
         [mixedRows ! 0, mixedRows ! 2, mixedRows ! 1]
   \<and> \<not> orderedBy (compareFn sampleHost \<lparr>key = ''V'', direction = Asc\<rparr>)
         [mixedRows ! 1, mixedRows ! 0, mixedRows ! 2]
   \<and> \<not> orderedBy (compareFn sampleHost \<lparr>key = ''V'', direction = Asc\<rparr>)
         [mixedRows ! 1, mixedRows ! 2, mixedRows ! 0]
   \<and> \<not> orderedBy (compareFn sampleHost \<lparr>key = ''V'', direction = Asc\<rparr>)
         [mixedRows ! 2, mixedRows ! 0, mixedRows ! 1]
   \<and> \<not> orderedBy (compareFn sampleHost \<lparr>key = ''V'', direction = Asc\<rparr>)
         [mixedRows ! 2, mixedRows ! 1, mixedRows ! 0]
   \<and> \<not> orderedBy (compareFn sampleHost \<lparr>key = ''V'', direction = Asc\<rparr>)
         (sortData sampleHost mixedState mixedRows)"
proof -
  have c: "sortConfig mixedState = Some \<lparr>key = ''V'', direction = Asc\<rparr>"
    by (simp add: mixedState_def)
  have cyc: "compareFn sampleHost \<lparr>key = ''V'', direction = Asc\<rparr> (mixedRows ! 0) (mixedRows ! 2) < 0"
    "compareFn sampleHost \<lparr>key = ''V'', direction = Asc\<rparr> (mixedRows ! 2) (mixedRows ! 1) < 0"
    "compareFn sampleHost \<lparr>key = ''V'', direction = Asc\<rparr> (mixedRows ! 1) (mixedRows ! 0) < 0"
    by code_simp+
  have perms: "\<not> orderedBy (compareFn sampleHost \<lparr>key = ''V'', direction = Asc\<rparr>)
         [mixedRows ! 0, mixedRows ! 1, mixedRows ! 2]"
    "\<not> orderedBy (compareFn sampleHost \<lparr>key = ''V'', direction = Asc\<rparr>)
         [mixedRows ! 0, mixedRows ! 2, mixedRows ! 1]"
    "\<not> orderedBy (compareFn sampleHost \<lparr>key = ''V'', direction = Asc\<rparr>)
         [mixedRows ! 1, mixedRows ! 0, mixedRows ! 2]"
    "\<not> orderedBy (compareFn sampleHost \<lparr>key = ''V'', direction = Asc\<rparr>)
         [mixedRows ! 1, mixedRows ! 2, mixedRows ! 0]"
    "\<not> orderedBy (compareFn sampleHost \<lparr>key = ''V'', direction = Asc\<rparr>)
         [mixedRows ! 2, mixedRows ! 0, mixedRows ! 1]"
    "\<not> orderedBy (compareFn sampleHost \<lparr>key = ''V'', direction = Asc\<rparr>)
         [mixedRows ! 2, mixedRows ! 1, mixedRows ! 0]"
    by code_simp+
  have "\<not> orderedBy (compareFn sampleHost \<lparr>key = ''V'', direction = Asc\<rparr>)
         (stableSort (compareFn sampleHost \<lparr>key = ''V'', direction = Asc\<rparr>) mixedRows)"
    by code_simp
  then have res: "\<not> orderedBy (compareFn sampleHost \<lparr>key = ''V'', direction = Asc\<rparr>)
         (sortData sampleHost mixedState mixedRows)"
    by (simp add: sortData_def c arraySort_sampleHost)
  from c cyc perms res show ?thesis by (intro conjI)
qed

text \<open>
  Claim C6 as amended. With no sort configuration \<open>sortData\<close> returns its
  input. In every case the result is a rearrangement of the input, and the
  input itself is never written. With a configuration the rearrangement is
  that of the host's sort under \<open>compareFn\<close>. Ascending, \<open>compareFn\<close> is the
  difference of the two values when both are numbers, and otherwise the host's
  locale comparison of their string forms, the string form of a missing or
  null value being empty; descending has the opposite sign, given that the
  host's comparison is antisymmetric. Where \<open>compareFn\<close> is consistent on the
  input, the result is ordered by it, ties in their former order; where it is
  not, as on a column mixing numbers with other values, the result need not
  be ordered.
\<close>

theorem sortData_orders:
  "(sortConfig st = None \<longrightarrow> sortData h st xs = xs)
   \<and> mset (sortData h st xs) = mset xs
   \<and> (\<forall>cfg. sortConfig st = Some cfg \<and> consistentOn (compareFn h cfg) xs \<longrightarrow>
         orderedBy (compareFn h cfg) (sortData h st xs)
         \<and> sortData h st xs = stableSort (compareFn h cfg) xs)
   \<and> (\<forall>k a b x y. getProp h a k = Value (JNum x) \<and> getProp h b k = Value (JNum y) \<longrightarrow>
         compareFn h \<lparr>key = k, direction = Asc\<rparr> a b = x - y)
   \<and> (\<forall>k a b. (\<nexists>x. getProp h a k = Value (JNum x)) \<or> (\<nexists>y. getProp h b k = Value (JNum y)) \<longrightarrow>
         compareFn h \<lparr>key = k, direction = Asc\<rparr> a b =
           of_int (localeCompare h (strOrEmpty h (getProp h a k)) (strOrEmpty h (getProp h b k))))
   \<and> strOrEmpty h Undefined = [] \<and> strOrEmpty h (Value JNull) = []
   \<and> (antisymCompare h \<longrightarrow>
         (\<forall>k a b. sgn (compareFn h \<lparr>key = k, direction = Desc\<rparr> a b)
                    = - sgn (compareFn h \<lparr>key = k, direction = Asc\<rparr> a b)))"
proof -
  have null: "sortConfig st = None \<longrightarrow> sortData h st xs = xs"
    by (simp add: sortData_def)
  have perm: "mset (sortData h st xs) = mset xs"
    by (simp add: sortData_def mset_arraySort split: option.splits)
  have srt: "\<forall>cfg. sortConfig st = Some cfg \<and> consistentOn (compareFn h cfg) xs \<longrightarrow>
         orderedBy (compareFn h cfg) (sortData h st xs)
         \<and> sortData h st xs = stableSort (compareFn h cfg) xs"
    by (simp add: sortData_def arraySort_consistent ordered_stableSort)
  have num: "\<forall>k a b x y. getProp h a k = Value (JNum x) \<and> getProp h b k = Value (JNum y) \<longrightarrow>
         compareFn h \<lparr>key = k, direction = Asc\<rparr> a b = x - y"
    by (simp add: compareFn_numbers)
  have str: "\<forall>k a b. (\<nexists>x. getProp h a k = Value (JNum x)) \<or> (\<nexists>y. getProp h b k = Value (JNum y)) \<longrightarrow>
         compareFn h \<lparr>key = k, direction = Asc\<rparr> a b =
           of_int (localeCompare h (strOrEmpty h (getProp h a k)) (strOrEmpty h (getProp h b k)))"
    using compareFn_strings [of h _ _ _ Asc] by simp
  have missing: "strOrEmpty h Undefined = [] \<and> strOrEmpty h (Value JNull) = []"
    by (simp add: strOrEmpty_def)
  have flip: "antisymCompare h \<longrightarrow>
         (\<forall>k a b. sgn (compareFn h \<lparr>key = k, direction = Desc\<rparr> a b)
                    = - sgn (compareFn h \<lparr>key = k, direction = Asc\<rparr> a b))"
    using compareFn_flip by blast
  from null perm srt num str missing flip show ?thesis by (intro conjI) blast+
qed

theorem sortData_orders_witness:
  "sortConfig sortedState = Some \<lparr>key = ''ROCE %'', direction = Desc\<rparr>
   \<and> consistentOn (compareFn sampleHost \<lparr>key = ''ROCE %'', direction = Desc\<rparr>) sampleData
   \<and> orderedBy (compareFn sampleHost \<lparr>key = ''ROCE %'', direction = Desc\<rparr>)
        (sortData sampleHost sortedState sampleData)
   \<and> sortData sampleHost sortedState sampleData
        = [sampleData ! 2, sampleData ! 0, sampleData ! 1]
   \<and> getProp sampleHost (sampleData ! 0) ''ROCE %'' = Value (JNum 9)
   \<and> getProp sampleHost (sampleData ! 2) ''ROCE %'' = Value (JNum 30)
   \<and> compareFn sampleHost \<lparr>key = ''ROCE %'', direction = Asc\<rparr> (sampleData ! 0) (sampleData ! 2)
        = 9 - 30
   \<and> antisymCompare sampleHost
   \<and> sgn (compareFn sampleHost \<lparr>key = ''ROCE %'', direction = Desc\<rparr> (sampleData ! 0) (sampleData ! 2))
        = - sgn (compareFn sampleHost \<lparr>key = ''ROCE %'', direction = Asc\<rparr>
                   (sampleData ! 0) (sampleData ! 2))"
proof -
  note t = sortData_orders [of sortedState sampleHost sampleData]
  have c: "sortConfig sortedState = Some \<lparr>key = ''ROCE %'', direction = Desc\<rparr>"
    by (simp add: sortedState_def)
  have con: "consistentOn (compareFn sampleHost \<lparr>key = ''ROCE %'', direction = Desc\<rparr>) sampleData"
    by code_simp
  from c con have h: "sortConfig sortedState = Some \<lparr>key = ''ROCE %'', direction = Desc\<rparr>
      \<and> consistentOn (compareFn sampleHost \<lparr>key = ''ROCE %'', direction = Desc\<rparr>) sampleData"
    by (intro conjI)
  note o = t [THEN conjunct2, THEN conjunct2, THEN conjunct1, rule_format, OF h]
  from o have s: "orderedBy (compareFn sampleHost \<lparr>key = ''ROCE %'', direction = Desc\<rparr>)
        (sortData sampleHost sortedState sampleData)"
    by (rule conjunct1)
  have "stableSort (compareFn sampleHost \<lparr>key = ''ROCE %'', direction = Desc\<rparr>) sampleData
        = [sampleData ! 2, sampleData ! 0, sampleData ! 1]"
    by code_simp
  with o have r: "sortData sampleHost sortedState sampleData
        = [sampleData ! 2, sampleData ! 0, sampleData ! 1]"
    by simp
  have m0: "getProp sampleHost (sampleData ! 0) ''ROCE %'' = Value (JNum 9)"
    and m2: "getProp sampleHost (sampleData ! 2) ''ROCE %'' = Value (JNum 30)"
    by (simp_all add: sampleData_def getProp_def)
  from m0 m2 have m: "getProp sampleHost (sampleData ! 0) ''ROCE %'' = Value (JNum 9)
      \<and> getProp sampleHost (sampleData ! 2) ''ROCE %'' = Value (JNum 30)"
    by (intro conjI)
  note nn = t [THEN conjunct2, THEN conjunct2, THEN conjunct2, THEN conjunct1, rule_format, OF m]
  have a: "antisymCompare sampleHost" by (rule sampleHost_antisym)
  from t a have fl: "sgn (compareFn sampleHost \<lparr>key = ''ROCE %'', direction = Desc\<rparr>
        (sampleData ! 0) (sampleData ! 2))
        = - sgn (compareFn sampleHost \<lparr>key = ''ROCE %'', direction = Asc\<rparr>
                   (sampleData ! 0) (sampleData ! 2))"
    by blast
  from c con s r m0 m2 nn a fl show ?thesis by (intro conjI)
qed

section \<open>The current page across filter and sort changes\<close>

lemma length_arraySort: "length (arraySort h c xs) = length xs"
  using mset_arraySort [of h c xs] by (metis size_mset)

lemma length_sortData: "length (sortData h st xs) = length xs"
  by (simp add: sortData_def length_arraySort split: option.splits)

lemma totalPages_length: "length xs = length ys \<Longrightarrow> totalPages xs = totalPages ys"
  by (simp add: totalPages_def)

lemma applyFilters_handleSort: "applyFilters h (handleSort k st) = applyFilters h st"
  by (simp add: applyFilters_def handleSort_def Let_def)

text \<open>
  Claim C2 says that every change of the filters or of the sort configuration
  sets \<open>currentPage\<close> to 1, and that \<open>currentPage\<close> always lies between 1 and
  \<open>totalPages\<close>. The code has no such reset: \<open>currentPage\<close> is set by
  \<open>handlePageChange\<close> alone. On page 2 of twenty-one rows, choosing a sort
  column leaves the page at 2; new search parameters that keep two rows leave
  one page in total and the current page still 2.
\<close>

theorem page_reset_counterexample:
  "sortConfig (handleSort ''S.No'' pagedState) \<noteq> sortConfig pagedState
   \<and> currentPage (handleSort ''S.No'' pagedState) \<noteq> 1
   \<and> filters (searchParamsEffect [(''S.No'', ''7'')] pagedState) \<noteq> filters pagedState
   \<and> 0 < totalPages (filteredAndSortedData sampleHost
             (searchParamsEffect [(''S.No'', ''7'')] pagedState))
   \<and> totalPages (filteredAndSortedData sampleHost
             (searchParamsEffect [(''S.No'', ''7'')] pagedState))
       < currentPage (searchParamsEffect [(''S.No'', ''7'')] pagedState)"
  by code_simp

text \<open>
  Claim C2 as amended. A change of the sort configuration (\<open>handleSort\<close>), a
  change of the filters (the effect on the search parameters) and the end of a
  fetch all leave \<open>currentPage\<close> as it is; \<open>handlePageChange\<close> sets it to the
  page it is given. A sort change also leaves \<open>totalPages\<close> as it is, so it
  keeps \<open>currentPage\<close> within 1 and \<open>totalPages\<close> whenever it was there.
\<close>

theorem currentPage_kept:
  "currentPage (handleSort k st) = currentPage st
   \<and> currentPage (searchParamsEffect params st) = currentPage st
   \<and> currentPage (fetchDataDone result st) = currentPage st
   \<and> currentPage (fetchDataFailed st) = currentPage st
   \<and> currentPage (handlePageChange p st) = p
   \<and> totalPages (filteredAndSortedData h (handleSort k st))
       = totalPages (filteredAndSortedData h st)"
proof -
  have "length (filteredAndSortedData h (handleSort k st)) = length (filteredAndSortedData h st)"
    by (simp add: filteredAndSortedData_def length_sortData applyFilters_handleSort)
  then have "totalPages (filteredAndSortedData h (handleSort k st))
       = totalPages (filteredAndSortedData h st)"
    by (rule totalPages_length)
  then show ?thesis
    by (simp add: handleSort_def searchParamsEffect_def fetchDataDone_def fetchDataFailed_def
        handlePageChange_def Let_def)
qed

section \<open>The saved query store: create and delete\<close>

lemma saveQuery_rejected:
  "queryData st = None \<or> trim h (name st) = [] \<Longrightarrow>
     saveQuery h now st ls = ([Alert ''Please enter a name for your query''], st, ls)"
  by (auto simp: saveQuery_def split: option.splits)

lemma saveQuery_failed:
  "queryData st = Some qd \<Longrightarrow> trim h (name st) \<noteq> [] \<Longrightarrow> readCollection ls = None \<Longrightarrow>
     saveQuery h now st ls =
       ([ConsoleError ''Error saving query:'', Alert ''Error saving query. Please try again.''],
        st\<lparr>saving := False\<rparr>, ls)"
  by (simp add: saveQuery_def)

lemma saveQuery_stored:
  "queryData st = Some qd \<Longrightarrow> trim h (name st) \<noteq> [] \<Longrightarrow> readCollection ls = Some qs \<Longrightarrow>
     saveQuery h now st ls =
       ([Alert ''Query saved successfully!'', Navigate ''/my-query''],
        st\<lparr>saving := False\<rparr>, ls(storageKey \<mapsto> Collection (qs @ [newQuery h now st qd])))"
  by (simp add: saveQuery_def)

lemma readCollection_update: "readCollection (ls(storageKey \<mapsto> Collection qs)) = Some qs"
  by (simp add: readCollection_def)

lemma loadSavedQueries_update: "loadSavedQueries mem (ls(storageKey \<mapsto> Collection qs)) = qs"
  by (simp add: loadSavedQueries_def)

lemma loadSavedQueries_fresh:
  "readCollection ls = Some qs \<Longrightarrow> loadSavedQueries [] ls = qs"
  by (auto simp: readCollection_def loadSavedQueries_def split: option.splits blob.splits)

lemma sampleSave_facts:
  "queryData sampleSave = Some sampleCapture"
  "trim sampleHost (name sampleSave) = ''Low PE''"
  by (simp_all add: sampleSave_def sampleHost_def asciiTrim_def isSpace_def)

lemma emptyStorage_read: "readCollection emptyStorage = Some []"
  by (simp add: readCollection_def emptyStorage_def)

lemma corruptStorage_read: "readCollection corruptStorage = None"
  by (simp add: readCollection_def corruptStorage_def)

lemma storageAfterOne_eq:
  "storageAfterOne = emptyStorage(storageKey \<mapsto> Collection [firstQuery])"
  unfolding storageAfterOne_def firstQuery_def
  by (simp add: saveQuery_stored [OF sampleSave_facts(1) _ emptyStorage_read] sampleSave_facts(2))

lemma storageAfterTwo_eq:
  "storageAfterTwo = storageAfterOne(storageKey \<mapsto> Collection [firstQuery, secondQuery])"
proof -
  have "readCollection storageAfterOne = Some [firstQuery]"
    by (simp add: storageAfterOne_eq readCollection_update)
  then show ?thesis
    unfolding storageAfterTwo_def secondQuery_def
    by (simp add: saveQuery_stored [OF sampleSave_facts(1)] sampleSave_facts(2))
qed

lemma deleteQuery_confirmed:
  "deleteQuery True i mem ls =
     (filter (\<lambda>q. sq_id q \<noteq> Some i) mem,
      ls(storageKey \<mapsto> Collection (filter (\<lambda>q. sq_id q \<noteq> Some i) mem)))"
  by (simp add: deleteQuery_def Let_def)

lemma saveQuery_other_keys:
  "k \<noteq> storageKey \<Longrightarrow> snd (snd (saveQuery h now st ls)) k = ls k"
  by (simp add: saveQuery_def split: option.splits)

lemma deleteQuery_other_keys:
  "k \<noteq> storageKey \<Longrightarrow> snd (deleteQuery c i mem ls) k = ls k"
  by (simp add: deleteQuery_def Let_def)

lemma digit_chars:
  "char_of (48::nat) = CHR ''0''" "char_of (49::nat) = CHR ''1''" "char_of (50::nat) = CHR ''2''"
  "char_of (51::nat) = CHR ''3''" "char_of (52::nat) = CHR ''4''" "char_of (53::nat) = CHR ''5''"
  "char_of (54::nat) = CHR ''6''" "char_of (55::nat) = CHR ''7''" "char_of (56::nat) = CHR ''8''"
  "char_of (57::nat) = CHR ''9''"
  by code_simp+
lemma decimal_first: "decimal 1714557600000 = ''1714557600000''"
  by (simp add: decimal.simps digit_chars)
lemma decimal_second: "decimal 1714557600001 = ''1714557600001''"
  by (simp add: decimal.simps digit_chars)
lemma firstQuery_id: "sq_id firstQuery = Some ''1714557600000''"
  by (simp add: firstQuery_def newQuery_def sampleCapture_def saveQueryQR_def decimal_first)
lemma secondQuery_id: "sq_id secondQuery = Some ''1714557600001''"
  by (simp add: secondQuery_def newQuery_def sampleCapture_def saveQueryQR_def decimal_second)

text \<open>
  Claim C3 says that every create with a non-empty trimmed name gives the new
  query a fresh unique id and appends it, so that the list grows by one. Two
  inputs show otherwise. The id is the clock's reading: a second create at the
  same reading stores a second entry with the id of the first. And when the
  stored text does not parse, create reports an error and stores nothing: the
  list read afterwards is as empty as before.
\<close>

theorem create_counterexample:
  "trim sampleHost (name sampleSave) \<noteq> []
   \<and> loadSavedQueries [] storageAfterOne = [firstQuery]
   \<and> loadSavedQueries [] (snd (snd (saveQuery sampleHost 1714557600000 sampleSave storageAfterOne)))
       = [firstQuery, firstQuery]
   \<and> \<not> distinct (map sq_id
          (loadSavedQueries [] (snd (snd (saveQuery sampleHost 1714557600000 sampleSave storageAfterOne)))))
   \<and> loadSavedQueries [] corruptStorage = []
   \<and> loadSavedQueries [] (snd (snd (saveQuery sampleHost 1714557600000 sampleSave corruptStorage))) = []"
proof -
  have n: "trim sampleHost (name sampleSave) \<noteq> []"
    by (simp add: sampleSave_facts(2))
  have one: "loadSavedQueries [] storageAfterOne = [firstQuery]"
    by (simp add: storageAfterOne_eq loadSavedQueries_update)
  have r: "readCollection storageAfterOne = Some [firstQuery]"
    by (simp add: storageAfterOne_eq readCollection_update)
  have two: "loadSavedQueries [] (snd (snd (saveQuery sampleHost 1714557600000 sampleSave storageAfterOne)))
       = [firstQuery, firstQuery]"
    by (simp add: saveQuery_stored [OF sampleSave_facts(1) n r] loadSavedQueries_update
        firstQuery_def)
  have dup: "\<not> distinct (map sq_id
          (loadSavedQueries [] (snd (snd (saveQuery sampleHost 1714557600000 sampleSave storageAfterOne)))))"
    unfolding two by simp
  have c0: "loadSavedQueries [] corruptStorage = []"
    by (simp add: loadSavedQueries_def corruptStorage_def)
  have c1: "loadSavedQueries [] (snd (snd (saveQuery sampleHost 1714557600000 sampleSave corruptStorage))) = []"
    by (simp add: saveQuery_failed [OF sampleSave_facts(1) n corruptStorage_read] c0)
  from n one two dup c0 c1 show ?thesis by (intro conjI)
qed

text \<open>
  Claim C3 as amended. If there is no captured query or the trimmed name is
  empty, \<open>saveQuery\<close> only raises the notice and leaves component state and
  storage as they are. Otherwise, when the stored text is absent or parses to
  a collection, it appends one new saved query to the collection it has just
  read and writes the whole collection back under the store's key, so that the
  list read afterwards is the former list followed by the new query. The new
  query is the captured one (filters, sort configuration, the timestamp taken
  at capture, both counts) with the trimmed name and description and the
  selected tags; its id, the captured object carrying none, is the decimal
  reading of the clock.
\<close>

theorem saveQuery_create:
  "(queryData st = None \<or> trim h (name st) = [] \<longrightarrow>
      saveQuery h now st ls = ([Alert ''Please enter a name for your query''], st, ls))
   \<and> (\<forall>qd qs. queryData st = Some qd \<and> trim h (name st) \<noteq> [] \<and> readCollection ls = Some qs \<longrightarrow>
         snd (snd (saveQuery h now st ls)) = ls(storageKey \<mapsto> Collection (qs @ [newQuery h now st qd]))
         \<and> loadSavedQueries [] ls = qs
         \<and> loadSavedQueries [] (snd (snd (saveQuery h now st ls))) = qs @ [newQuery h now st qd]
         \<and> (qd_id qd = None \<longrightarrow> sq_id (newQuery h now st qd) = Some (decimal now))
         \<and> sq_name (newQuery h now st qd) = trim h (name st)
         \<and> sq_description (newQuery h now st qd) = trim h (description st)
         \<and> sq_tags (newQuery h now st qd) = selectedTags st
         \<and> sq_filters (newQuery h now st qd) = qd_filters qd
         \<and> sq_sortConfig (newQuery h now st qd) = qd_sortConfig qd
         \<and> sq_timestamp (newQuery h now st qd) = qd_timestamp qd
         \<and> sq_resultCount (newQuery h now st qd) = qd_resultCount qd
         \<and> sq_totalCount (newQuery h now st qd) = qd_totalCount qd)"
proof -
  have rej: "queryData st = None \<or> trim h (name st) = [] \<longrightarrow>
      saveQuery h now st ls = ([Alert ''Please enter a name for your query''], st, ls)"
    using saveQuery_rejected by blast
  have ok: "snd (snd (saveQuery h now st ls)) = ls(storageKey \<mapsto> Collection (qs @ [newQuery h now st qd]))
         \<and> loadSavedQueries [] ls = qs
         \<and> loadSavedQueries [] (snd (snd (saveQuery h now st ls))) = qs @ [newQuery h now st qd]
         \<and> (qd_id qd = None \<longrightarrow> sq_id (newQuery h now st qd) = Some (decimal now))
         \<and> sq_name (newQuery h now st qd) = trim h (name st)
         \<and> sq_description (newQuery h now st qd) = trim h (description st)
         \<and> sq_tags (newQuery h now st qd) = selectedTags st
         \<and> sq_filters (newQuery h now st qd) = qd_filters qd
         \<and> sq_sortConfig (newQuery h now st qd) = qd_sortConfig qd
         \<and> sq_timestamp (newQuery h now st qd) = qd_timestamp qd
         \<and> sq_resultCount (newQuery h now st qd) = qd_resultCount qd
         \<and> sq_totalCount (newQuery h now st qd) = qd_totalCount qd"
    if "queryData st = Some qd \<and> trim h (name st) \<noteq> [] \<and> readCollection ls = Some qs" for qd qs
  proof -
    have fields: "(qd_id qd = None \<longrightarrow> sq_id (newQuery h now st qd) = Some (decimal now))
         \<and> sq_name (newQuery h now st qd) = trim h (name st)
         \<and> sq_description (newQuery h now st qd) = trim h (description st)
         \<and> sq_tags (newQuery h now st qd) = selectedTags st
         \<and> sq_filters (newQuery h now st qd) = qd_filters qd
         \<and> sq_sortConfig (newQuery h now st qd) = qd_sortConfig qd
         \<and> sq_timestamp (newQuery h now st qd) = qd_timestamp qd
         \<and> sq_resultCount (newQuery h now st qd) = qd_resultCount qd
         \<and> sq_totalCount (newQuery h now st qd) = qd_totalCount qd"
      by (simp add: newQuery_def)
    have stored: "snd (snd (saveQuery h now st ls))
        = ls(storageKey \<mapsto> Collection (qs @ [newQuery h now st qd]))"
      using that by (simp add: saveQuery_stored)
    have before: "loadSavedQueries [] ls = qs"
      using that by (simp add: loadSavedQueries_fresh)
    have after: "loadSavedQueries [] (snd (snd (saveQuery h now st ls))) = qs @ [newQuery h now st qd]"
      unfolding stored by (rule loadSavedQueries_update)
    from stored before after fields show ?thesis by blast
  qed
  with rej show ?thesis by blast
qed

theorem saveQuery_create_witness:
  "queryData sampleSave = Some sampleCapture
   \<and> trim sampleHost (name sampleSave) \<noteq> []
   \<and> readCollection emptyStorage = Some []
   \<and> loadSavedQueries [] (snd (snd (saveQuery sampleHost 1714557600000 sampleSave emptyStorage)))
       = [] @ [firstQuery]
   \<and> qd_id sampleCapture = None
   \<and> sq_id firstQuery = Some (decimal 1714557600000)
   \<and> sq_name firstQuery = ''Low PE''
   \<and> trim sampleHost (name (sampleSave\<lparr>name := ''  ''\<rparr>)) = []
   \<and> saveQuery sampleHost 1714557600000 (sampleSave\<lparr>name := ''  ''\<rparr>) emptyStorage
       = ([Alert ''Please enter a name for your query''], sampleSave\<lparr>name := ''  ''\<rparr>, emptyStorage)"
proof -
  note t = saveQuery_create [of sampleSave sampleHost 1714557600000 emptyStorage]
  note u = saveQuery_create [of "sampleSave\<lparr>name := ''  ''\<rparr>" sampleHost 1714557600000 emptyStorage]
  have q: "queryData sampleSave = Some sampleCapture"
    by (rule sampleSave_facts(1))
  have n: "trim sampleHost (name sampleSave) \<noteq> []"
    by (simp add: sampleSave_facts(2))
  have r: "readCollection emptyStorage = Some []"
    by (rule emptyStorage_read)
  from q n r have h: "queryData sampleSave = Some sampleCapture \<and> trim sampleHost (name sampleSave) \<noteq> []
      \<and> readCollection emptyStorage = Some []"
    by (intro conjI)
  note c = t [THEN conjunct2, rule_format, OF h]
  from c have "loadSavedQueries [] (snd (snd (saveQuery sampleHost 1714557600000 sampleSave emptyStorage)))
       = [] @ [newQuery sampleHost 1714557600000 sampleSave sampleCapture]"
    by blast
  then have l: "loadSavedQueries [] (snd (snd (saveQuery sampleHost 1714557600000 sampleSave emptyStorage)))
       = [] @ [firstQuery]"
    by (simp add: firstQuery_def)
  have i0: "qd_id sampleCapture = None"
    by (simp add: sampleCapture_def saveQueryQR_def)
  from c have "qd_id sampleCapture = None \<longrightarrow>
      sq_id (newQuery sampleHost 1714557600000 sampleSave sampleCapture) = Some (decimal 1714557600000)"
    by blast
  with i0 have i1: "sq_id firstQuery = Some (decimal 1714557600000)"
    by (simp add: firstQuery_def)
  from c have "sq_name (newQuery sampleHost 1714557600000 sampleSave sampleCapture) = trim sampleHost (name sampleSave)"
    by blast
  then have nm: "sq_name firstQuery = ''Low PE''"
    by (simp add: sampleSave_facts(2) firstQuery_def)
  have e: "trim sampleHost (name (sampleSave\<lparr>name := ''  ''\<rparr>)) = []"
    by (simp add: sampleHost_def asciiTrim_def isSpace_def)
  with u
  have rej: "saveQuery sampleHost 1714557600000 (sampleSave\<lparr>name := ''  ''\<rparr>) emptyStorage
       = ([Alert ''Please enter a name for your query''], sampleSave\<lparr>name := ''  ''\<rparr>, emptyStorage)"
    by blast
  from q n r l i0 i1 nm e rej show ?thesis by (intro conjI)
qed

text \<open>
  Claim C4 says that delete, like create, first reads the stored collection
  and changes that. \<open>deleteQuery\<close> does not read the storage: it filters the
  list the component holds and writes that. A page that loaded its list after
  one create, and deletes that entry after a second create has been stored,
  writes the empty collection, where filtering the stored collection would
  have kept the second entry.
\<close>

theorem delete_stale_counterexample:
  "loadSavedQueries [] storageAfterOne = [firstQuery]
   \<and> readCollection storageAfterTwo = Some [firstQuery, secondQuery]
   \<and> filter (\<lambda>q. sq_id q \<noteq> Some ''1714557600000'') [firstQuery, secondQuery] = [secondQuery]
   \<and> readCollection (snd (deleteQuery True ''1714557600000'' [firstQuery] storageAfterTwo))
       = Some []"
proof -
  have one: "loadSavedQueries [] storageAfterOne = [firstQuery]"
    by (simp add: storageAfterOne_eq loadSavedQueries_update)
  have two: "readCollection storageAfterTwo = Some [firstQuery, secondQuery]"
    by (simp add: storageAfterTwo_eq readCollection_update)
  have keep: "filter (\<lambda>q. sq_id q \<noteq> Some ''1714557600000'') [firstQuery, secondQuery]
      = [secondQuery]"
    by (simp add: firstQuery_id secondQuery_id)
  have lost: "readCollection (snd (deleteQuery True ''1714557600000'' [firstQuery] storageAfterTwo))
       = Some []"
    by (simp add: deleteQuery_confirmed readCollection_update firstQuery_id)
  from one two keep lost show ?thesis by (intro conjI)
qed

text \<open>
  Claim C4 as amended. Create reads the stored collection anew, appends to it
  and writes the whole result under the store's key. Delete, once confirmed,
  filters the list the component holds, whatever the storage holds, and writes
  the whole filtered list under the same key; this is the stored collection
  filtered whenever the component's list is the stored collection. An
  unconfirmed delete changes nothing. Neither operation writes any other key.
\<close>

theorem store_mutations:
  "(\<forall>qd qs. queryData st = Some qd \<and> trim h (name st) \<noteq> [] \<and> readCollection ls = Some qs \<longrightarrow>
       snd (snd (saveQuery h now st ls))
         = ls(storageKey \<mapsto> Collection (qs @ [newQuery h now st qd])))
   \<and> deleteQuery True i mem ls =
        (filter (\<lambda>q. sq_id q \<noteq> Some i) mem,
         ls(storageKey \<mapsto> Collection (filter (\<lambda>q. sq_id q \<noteq> Some i) mem)))
   \<and> deleteQuery False i mem ls = (mem, ls)
   \<and> (\<forall>qs. readCollection ls = Some qs \<and> mem = qs \<longrightarrow>
         snd (deleteQuery True i mem ls)
           = ls(storageKey \<mapsto> Collection (filter (\<lambda>q. sq_id q \<noteq> Some i) qs)))
   \<and> (\<forall>k. k \<noteq> storageKey \<longrightarrow>
         snd (snd (saveQuery h now st ls)) k = ls k \<and> snd (deleteQuery c i mem ls) k = ls k)"
proof -
  have create: "\<forall>qd qs. queryData st = Some qd \<and> trim h (name st) \<noteq> [] \<and> readCollection ls = Some qs \<longrightarrow>
       snd (snd (saveQuery h now st ls))
         = ls(storageKey \<mapsto> Collection (qs @ [newQuery h now st qd]))"
    by (simp add: saveQuery_stored)
  have del: "deleteQuery True i mem ls =
        (filter (\<lambda>q. sq_id q \<noteq> Some i) mem,
         ls(storageKey \<mapsto> Collection (filter (\<lambda>q. sq_id q \<noteq> Some i) mem)))"
    by (rule deleteQuery_confirmed)
  have no: "deleteQuery False i mem ls = (mem, ls)"
    by (simp add: deleteQuery_def)
  have step: "\<forall>qs. readCollection ls = Some qs \<and> mem = qs \<longrightarrow>
         snd (deleteQuery True i mem ls)
           = ls(storageKey \<mapsto> Collection (filter (\<lambda>q. sq_id q \<noteq> Some i) qs))"
    by (simp add: deleteQuery_confirmed)
  have keys: "\<forall>k. k \<noteq> storageKey \<longrightarrow>
         snd (snd (saveQuery h now st ls)) k = ls k \<and> snd (deleteQuery c i mem ls) k = ls k"
    by (simp add: saveQuery_other_keys deleteQuery_other_keys)
  from create del no step keys show ?thesis by (intro conjI)
qed

theorem store_mutations_witness:
  "queryData sampleSave = Some sampleCapture \<and> trim sampleHost (name sampleSave) \<noteq> []
   \<and> readCollection storageAfterOne = Some [firstQuery]
   \<and> snd (snd (saveQuery sampleHost 1714557600001 sampleSave storageAfterOne))
       = storageAfterOne(storageKey \<mapsto> Collection ([firstQuery] @ [secondQuery]))
   \<and> snd (deleteQuery True ''1714557600000'' [firstQuery] storageAfterOne)
       = storageAfterOne(storageKey \<mapsto> Collection [])
   \<and> ''theme'' \<noteq> storageKey
   \<and> snd (deleteQuery True ''1714557600000'' [firstQuery] storageAfterOne) ''theme''
       = storageAfterOne ''theme''"
proof -
  note t = store_mutations [of sampleSave sampleHost storageAfterOne 1714557600001 "''1714557600000''"
      "[firstQuery]" True]
  have q: "queryData sampleSave = Some sampleCapture" by (rule sampleSave_facts(1))
  have n: "trim sampleHost (name sampleSave) \<noteq> []" by (simp add: sampleSave_facts(2))
  have r: "readCollection storageAfterOne = Some [firstQuery]"
    by (simp add: storageAfterOne_eq readCollection_update)
  from t q n r
  have "snd (snd (saveQuery sampleHost 1714557600001 sampleSave storageAfterOne))
       = storageAfterOne(storageKey \<mapsto> Collection
           ([firstQuery] @ [newQuery sampleHost 1714557600001 sampleSave sampleCapture]))"
    by blast
  then have cr: "snd (snd (saveQuery sampleHost 1714557600001 sampleSave storageAfterOne))
       = storageAfterOne(storageKey \<mapsto> Collection ([firstQuery] @ [secondQuery]))"
    by (simp add: secondQuery_def)
  from t r
  have "snd (deleteQuery True ''1714557600000'' [firstQuery] storageAfterOne)
       = storageAfterOne(storageKey \<mapsto> Collection
           (filter (\<lambda>q. sq_id q \<noteq> Some ''1714557600000'') [firstQuery]))"
    by blast
  then have dl: "snd (deleteQuery True ''1714557600000'' [firstQuery] storageAfterOne)
       = storageAfterOne(storageKey \<mapsto> Collection [])"
    by (simp add: firstQuery_id)
  have k: "''theme'' \<noteq> storageKey" by (simp add: storageKey_def)
  with t
  have ok: "snd (deleteQuery True ''1714557600000'' [firstQuery] storageAfterOne) ''theme''
       = storageAfterOne ''theme''"
    by blast
  from q n r cr dl k ok show ?thesis by (intro conjI)
qed

section \<open>The counts of a saved query\<close>

lemma saveQuery_keeps_stored:
  assumes "readCollection ls = Some qs"
  shows "\<exists>new. readCollection (snd (snd (saveQuery h now st ls))) = Some (qs @ new)"
proof (cases "queryData st = None \<or> trim h (name st) = []")
  case True
  then have "readCollection (snd (snd (saveQuery h now st ls))) = Some (qs @ [])"
    using assms by (simp add: saveQuery_rejected)
  then show ?thesis by blast
next
  case False
  then obtain qd where "queryData st = Some qd" and "trim h (name st) \<noteq> []" by auto
  then have "readCollection (snd (snd (saveQuery h now st ls))) = Some (qs @ [newQuery h now st qd])"
    using assms by (simp add: saveQuery_stored readCollection_update)
  then show ?thesis by blast
qed

text \<open>
  Claim C9. The query captured from the pipeline state has as \<open>resultCount\<close>
  the length of the filtered data and as \<open>totalCount\<close> the length of the loaded
  data, so \<open>resultCount \<le> totalCount\<close>; create stores it with exactly these
  counts. No operation of the store computes a count again or changes a stored
  entry: create keeps the stored entries and only appends, delete writes a
  subsequence of the list the component holds, an unconfirmed delete writes
  nothing, and loading returns the stored entries as they are.
\<close>

theorem counts_frozen:
  "qd_resultCount (saveQueryQR h isoNow qst) = length (applyFilters h qst)
   \<and> qd_totalCount (saveQueryQR h isoNow qst) = length (data qst)
   \<and> qd_resultCount (saveQueryQR h isoNow qst) \<le> qd_totalCount (saveQueryQR h isoNow qst)
   \<and> (\<forall>qs. queryData st = Some (saveQueryQR h isoNow qst) \<and> trim h (name st) \<noteq> []
            \<and> readCollection ls = Some qs \<longrightarrow>
         readCollection (snd (snd (saveQuery h now st ls)))
           = Some (qs @ [newQuery h now st (saveQueryQR h isoNow qst)])
         \<and> sq_resultCount (newQuery h now st (saveQueryQR h isoNow qst)) = length (applyFilters h qst)
         \<and> sq_totalCount (newQuery h now st (saveQueryQR h isoNow qst)) = length (data qst)
         \<and> sq_resultCount (newQuery h now st (saveQueryQR h isoNow qst))
             \<le> sq_totalCount (newQuery h now st (saveQueryQR h isoNow qst)))
   \<and> (\<forall>qs. readCollection ls = Some qs \<longrightarrow>
         (\<exists>new. readCollection (snd (snd (saveQuery h now st ls))) = Some (qs @ new)))
   \<and> subseq (fst (deleteQuery c i mem ls)) mem
   \<and> (c \<longrightarrow> readCollection (snd (deleteQuery c i mem ls)) = Some (fst (deleteQuery c i mem ls)))
   \<and> (\<not> c \<longrightarrow> snd (deleteQuery c i mem ls) = ls)
   \<and> (loadSavedQueries mem ls = mem \<or> readCollection ls = Some (loadSavedQueries mem ls))"
proof -
  let ?qd = "saveQueryQR h isoNow qst"
  have le: "length (applyFilters h qst) \<le> length (data qst)"
    by (simp add: applyFilters_def)
  have cap: "qd_resultCount ?qd = length (applyFilters h qst)
      \<and> qd_totalCount ?qd = length (data qst)
      \<and> qd_resultCount ?qd \<le> qd_totalCount ?qd"
    using le by (simp add: saveQueryQR_def)
  have create: "\<forall>qs. queryData st = Some ?qd \<and> trim h (name st) \<noteq> []
            \<and> readCollection ls = Some qs \<longrightarrow>
         readCollection (snd (snd (saveQuery h now st ls))) = Some (qs @ [newQuery h now st ?qd])
         \<and> sq_resultCount (newQuery h now st ?qd) = length (applyFilters h qst)
         \<and> sq_totalCount (newQuery h now st ?qd) = length (data qst)
         \<and> sq_resultCount (newQuery h now st ?qd) \<le> sq_totalCount (newQuery h now st ?qd)"
    using le by (simp add: saveQuery_stored readCollection_update newQuery_def saveQueryQR_def)
  have keep: "\<forall>qs. readCollection ls = Some qs \<longrightarrow>
         (\<exists>new. readCollection (snd (snd (saveQuery h now st ls))) = Some (qs @ new))"
    using saveQuery_keeps_stored by blast
  have del: "subseq (fst (deleteQuery c i mem ls)) mem"
    by (simp add: deleteQuery_def Let_def)
  have delw: "c \<longrightarrow> readCollection (snd (deleteQuery c i mem ls)) = Some (fst (deleteQuery c i mem ls))"
    by (simp add: deleteQuery_def Let_def readCollection_update)
  have deln: "\<not> c \<longrightarrow> snd (deleteQuery c i mem ls) = ls"
    by (simp add: deleteQuery_def)
  have load: "loadSavedQueries mem ls = mem \<or> readCollection ls = Some (loadSavedQueries mem ls)"
    by (simp add: loadSavedQueries_def readCollection_def split: option.splits blob.splits)
  from cap create keep del delw deln load show ?thesis by (intro conjI) blast+
qed

theorem counts_frozen_witness:
  "queryData sampleSave = Some (saveQueryQR sampleHost ''2024-05-01T10:00:00.000Z'' sampleState)
   \<and> trim sampleHost (name sampleSave) \<noteq> []
   \<and> readCollection emptyStorage = Some []
   \<and> readCollection storageAfterOne = Some ([] @ [firstQuery])
   \<and> sq_resultCount firstQuery = 2
   \<and> sq_totalCount firstQuery = 3
   \<and> readCollection (snd (deleteQuery True ''0'' [firstQuery] storageAfterOne))
       = Some (fst (deleteQuery True ''0'' [firstQuery] storageAfterOne))
   \<and> \<not> False
   \<and> snd (deleteQuery False ''0'' [firstQuery] storageAfterOne) = storageAfterOne"
proof -
  note t = counts_frozen [of sampleHost "''2024-05-01T10:00:00.000Z''" sampleState sampleSave
      emptyStorage 1714557600000 True "''0''" "[firstQuery]"]
  note u = counts_frozen [of sampleHost "''2024-05-01T10:00:00.000Z''" sampleState sampleSave
      storageAfterOne 1714557600000 True "''0''" "[firstQuery]"]
  note v = counts_frozen [of sampleHost "''2024-05-01T10:00:00.000Z''" sampleState sampleSave
      storageAfterOne 1714557600000 False "''0''" "[firstQuery]"]
  have q: "queryData sampleSave
      = Some (saveQueryQR sampleHost ''2024-05-01T10:00:00.000Z'' sampleState)"
    by (simp add: sampleSave_facts(1) sampleCapture_def)
  have n: "trim sampleHost (name sampleSave) \<noteq> []" by (simp add: sampleSave_facts(2))
  have r: "readCollection emptyStorage = Some []" by (rule emptyStorage_read)
  have fq: "firstQuery = newQuery sampleHost 1714557600000 sampleSave
      (saveQueryQR sampleHost ''2024-05-01T10:00:00.000Z'' sampleState)"
    by (simp add: firstQuery_def sampleCapture_def)
  from t q n r
  have "readCollection (snd (snd (saveQuery sampleHost 1714557600000 sampleSave emptyStorage)))
      = Some ([] @ [newQuery sampleHost 1714557600000 sampleSave
          (saveQueryQR sampleHost ''2024-05-01T10:00:00.000Z'' sampleState)])"
    by blast
  then have s1: "readCollection storageAfterOne = Some ([] @ [firstQuery])"
    by (simp add: storageAfterOne_def fq)
  have af: "length (applyFilters sampleHost sampleState) = 2"
    by code_simp
  from t q n r
  have "sq_resultCount (newQuery sampleHost 1714557600000 sampleSave
          (saveQueryQR sampleHost ''2024-05-01T10:00:00.000Z'' sampleState))
      = length (applyFilters sampleHost sampleState)"
    by blast
  then have rc: "sq_resultCount firstQuery = 2"
    by (simp add: fq af)
  from t q n r
  have "sq_totalCount (newQuery sampleHost 1714557600000 sampleSave
          (saveQueryQR sampleHost ''2024-05-01T10:00:00.000Z'' sampleState))
      = length (data sampleState)"
    by blast
  then have tc: "sq_totalCount firstQuery = 3"
    by (simp add: fq sampleState_def sampleData_def)
  from u
  have d: "readCollection (snd (deleteQuery True ''0'' [firstQuery] storageAfterOne))
       = Some (fst (deleteQuery True ''0'' [firstQuery] storageAfterOne))"
    by blast
  have nf: "\<not> False" by simp
  with v
  have dn: "snd (deleteQuery False ''0'' [firstQuery] storageAfterOne) = storageAfterOne"
    by blast
  from q n r s1 rc tc d nf dn show ?thesis by (intro conjI)
qed

end
